theory Spec2Isabelle
  imports
    Main
    "HOL-Library.Sublist"
    "HOL-Library.AList"
    "HOL-Library.Char_ord"
    "HOL-Library.List_Lexorder"
begin

section \<open>The project updater of batools (tools/batools/project/\_updater.py)\<close>

text \<open>
  A shallow embedding of \<^verbatim>\<open>project_centric_path\<close> and of the class
  \<^verbatim>\<open>ProjectUpdater\<close>.  Python strings are \<^typ>\<open>string\<close>; a character stands for the
  code point of the same number, so the model covers text of code points below 256.
  Python exceptions are values of the type \<open>err\<close>; a function that can raise returns a
  sum whose left injection is the exception.
\<close>

subsection \<open>Exceptions\<close>

datatype err =
    RuntimeError string
  | CleanError string
  | AssertionError
  | FileNotFoundError string
  | IsADirectoryError string
  | IndexError
  | ValueError
  | ExternalError string

subsection \<open>project\_centric\_path\<close>

text \<open>
  \<^verbatim>\<open>os.path.abspath\<close> depends on the working directory of the process; it is the
  parameter \<open>abspath\<close>.
  \<^verbatim>\<open>
  def project_centric_path(projroot: str, path: str) -> str:
      abspath = os.path.abspath(path)
      if abspath == projroot:
          return '.'
      projprefix = f'{projroot}/'
      if not abspath.startswith(projprefix):
          raise RuntimeError(
              f'Path "{abspath}" is not under project root "{projprefix}"'
          )
      return abspath[len(projprefix) :]
  \<close>
\<close>

definition project_centric_path :: "(string \<Rightarrow> string) \<Rightarrow> string \<Rightarrow> string \<Rightarrow> err + string" where
  "project_centric_path abspath projroot path =
     (let abspath' = abspath path in
      if abspath' = projroot then Inr ''.''
      else
        let projprefix = projroot @ ''/'' in
        if \<not> prefix projprefix abspath' then
          Inl (RuntimeError (''Path '' @ [CHR 0x22] @ abspath' @ [CHR 0x22]
                 @ '' is not under project root '' @ [CHR 0x22] @ projprefix @ [CHR 0x22]))
        else Inr (drop (length projprefix) abspath'))"

subsection \<open>Python primitives used by the updater\<close>

text \<open>
  \<^verbatim>\<open>str.splitlines()\<close> breaks a text at every line boundary: line feed, vertical tab,
  form feed, carriage return (a carriage return followed by a line feed is one boundary),
  the three separators 0x1C to 0x1E and next-line 0x85.  The boundaries are dropped, and a
  text that ends in a boundary has no empty last line.
\<close>

definition is_linebreak :: "char \<Rightarrow> bool" where
  "is_linebreak c \<longleftrightarrow>
     c \<in> set [CHR 0x0A, CHR 0x0B, CHR 0x0C, CHR 0x0D, CHR 0x1C, CHR 0x1D, CHR 0x1E, CHR 0x85]"

fun splitlines_from :: "string \<Rightarrow> string \<Rightarrow> string list" where
  "splitlines_from cur [] = (if cur = [] then [] else [cur])"
| "splitlines_from cur [c] = (if is_linebreak c then [cur] else [cur @ [c]])"
| "splitlines_from cur (c # d # cs) =
     (if c = CHR 0x0D \<and> d = CHR 0x0A then cur # splitlines_from [] cs
      else if is_linebreak c then cur # splitlines_from [] (d # cs)
      else splitlines_from (cur @ [c]) (d # cs))"

definition splitlines :: "string \<Rightarrow> string list" where
  "splitlines t = splitlines_from [] t"

text \<open>\<^verbatim>\<open>sep.join(xs)\<close>.\<close>

fun str_join :: "string \<Rightarrow> string list \<Rightarrow> string" where
  "str_join sep [] = []"
| "str_join sep [x] = x"
| "str_join sep (x # y # xs) = x @ sep @ str_join sep (y # xs)"

text \<open>\<^verbatim>\<open>s.replace('\r\n', '\n')\<close>: every carriage return followed by a line feed, from
  the left, becomes a line feed.\<close>

fun replace_crlf :: "string \<Rightarrow> string" where
  "replace_crlf [] = []"
| "replace_crlf [c] = [c]"
| "replace_crlf (c # d # cs) =
     (if c = CHR 0x0D \<and> d = CHR 0x0A then CHR 0x0A # replace_crlf cs
      else c # replace_crlf (d # cs))"

text \<open>
  An index \<open>i\<close> into a list of length \<open>n\<close>: Python counts a negative index from the end and
  raises \<^verbatim>\<open>IndexError\<close> outside \<open>-n \<le> i < n\<close>.  The result is the position, or \<open>None\<close>
  for the error.
\<close>

definition py_index :: "nat \<Rightarrow> int \<Rightarrow> nat option" where
  "py_index n i =
     (if 0 \<le> i \<and> i < int n then Some (nat i)
      else if i < 0 \<and> - int n \<le> i then Some (nat (int n + i))
      else None)"

text \<open>The decimal text of an integer, as an f-string prints it.\<close>

fun str_of_nat :: "nat \<Rightarrow> string" where
  "str_of_nat n =
     (if n < 10 then [''0123456789'' ! n]
      else str_of_nat (n div 10) @ [''0123456789'' ! (n mod 10)])"

declare str_of_nat.simps [simp del]

definition str_of_int :: "int \<Rightarrow> string" where
  "str_of_int i = (if i < 0 then CHR ''-'' # str_of_nat (nat (- i)) else str_of_nat (nat i))"

text \<open>\<^verbatim>\<open>os.path.join\<close> and \<^verbatim>\<open>os.path.dirname\<close> of posixpath, for two components.\<close>

definition os_path_join :: "string \<Rightarrow> string \<Rightarrow> string" where
  "os_path_join a b =
     (if prefix ''/'' b then b
      else if a = [] \<or> suffix ''/'' a then a @ b
      else a @ ''/'' @ b)"

definition os_path_dirname :: "string \<Rightarrow> string" where
  "os_path_dirname p =
     (let head = rev (dropWhile (\<lambda>c. c \<noteq> CHR ''/'') (rev p)) in
      if head \<noteq> [] \<and> head \<noteq> replicate (length head) (CHR ''/'')
      then rev (dropWhile (\<lambda>c. c = CHR ''/'') (rev head))
      else head)"

subsection \<open>The world outside the process\<close>

text \<open>
  The file system and the terminal.  \<open>files\<close> gives the text of every regular file as
  \<^verbatim>\<open>read()\<close> returns it, \<open>isdir\<close> the directories, \<open>walk\<close> what \<^verbatim>\<open>os.walk\<close> yields
  for a directory (root, directory names, file names).  \<open>stdout\<close> holds the arguments of
  the \<^verbatim>\<open>print\<close> calls made so far and \<open>written\<close> the paths opened for writing so far,
  both in order.  Writing is taken to succeed, and a text is read back as it was written:
  a missing parent directory, permissions, encoding errors and the translation of line
  ends by text mode are outside the model.
\<close>

record world =
  files :: "string \<rightharpoonup> string"
  isdir :: "string \<Rightarrow> bool"
  walk :: "string \<Rightarrow> (string \<times> string list \<times> string list) list"
  stdout :: "string list"
  written :: "string list"

definition path_exists :: "world \<Rightarrow> string \<Rightarrow> bool" where
  "path_exists w p \<longleftrightarrow> files w p \<noteq> None \<or> isdir w p"

definition read_text :: "world \<Rightarrow> string \<Rightarrow> err + string" where
  "read_text w p =
     (if isdir w p then Inl (IsADirectoryError p)
      else case files w p of None \<Rightarrow> Inl (FileNotFoundError p) | Some t \<Rightarrow> Inr t)"

definition write_text :: "string \<Rightarrow> string \<Rightarrow> world \<Rightarrow> world" where
  "write_text p t w = w\<lparr>files := (files w)(p \<mapsto> t), written := written w @ [p]\<rparr>"

definition makedirs :: "string \<Rightarrow> world \<Rightarrow> world" where
  "makedirs p w = w\<lparr>isdir := (isdir w)(p := True)\<rparr>"

definition print :: "string \<Rightarrow> world \<Rightarrow> world" where
  "print t w = w\<lparr>stdout := stdout w @ [t]\<rparr>"

text \<open>The colour codes of \<^verbatim>\<open>efro.terminal.Clr\<close>, which depend on the terminal.\<close>

record clr =
  RED :: string
  BLU :: string
  BLD :: string
  RST :: string

subsection \<open>The updater's state\<close>

text \<open>
  \<^verbatim>\<open>
  @dataclass
  class _LineChange:
      line_number: int
      expected: str
      can_auto_update: bool
  \<close>
\<close>

record LineChange =
  line_number :: int
  expected :: string
  can_auto_update :: bool

text \<open>
  The attributes of \<^verbatim>\<open>ProjectUpdater\<close> that the modelled methods read or write.  A
  dictionary keeps its insertion order, so each is an association list with distinct keys;
  \<open>fix_mode\<close> is the attribute \<^verbatim>\<open>fix\<close>.  \<open>render_calls\<close> is not an attribute: it records,
  in order, the paths for which \<^verbatim>\<open>generate_file\<close> ran a renderer.
\<close>

record updater =
  projname :: string
  projroot :: string
  check :: bool
  fix_mode :: bool
  public :: bool
  source_files :: "string list option"
  header_files :: "string list option"
  enqueued_updates :: "(string \<times> string option) list"
  line_corrections :: "(string \<times> LineChange list) list"
  can_generate_files :: bool
  generated_files :: "(string \<times> string) list"
  license_line_checks :: bool
  run_file_checks :: bool
  render_calls :: "string list"

subsection \<open>The line-correction pass\<close>

text \<open>
  \<^verbatim>\<open>
  for fname, entries in self._line_corrections.items():
      for entry in entries:
          if entry.can_auto_update:
              auto_changes.append((fname, entry))
          else:
              manual_changes.append((fname, entry))
  \<close>
\<close>

definition all_changes :: "updater \<Rightarrow> (string \<times> LineChange) list" where
  "all_changes s = concat (map (\<lambda>(fname, entries). map (Pair fname) entries) (line_corrections s))"

definition manual_changes :: "updater \<Rightarrow> (string \<times> LineChange) list" where
  "manual_changes s = filter (\<lambda>(fname, entry). \<not> can_auto_update entry) (all_changes s)"

definition auto_changes :: "updater \<Rightarrow> (string \<times> LineChange) list" where
  "auto_changes s = filter (\<lambda>(fname, entry). can_auto_update entry) (all_changes s)"

text \<open>The line printed for one manual entry.\<close>

definition manual_message :: "clr \<Rightarrow> string \<times> LineChange \<Rightarrow> string" where
  "manual_message c change =
     RED c @ fst change @ '':'' @ str_of_int (line_number (snd change) + 1)
       @ '': Expected line to be:'' @ [CHR 0x0A] @ ''  '' @ expected (snd change) @ RST c"

text \<open>The three lines printed for one auto-fixable entry when \<^verbatim>\<open>fix\<close> is off, and the
  line printed when it is on.\<close>

definition auto_message :: "clr \<Rightarrow> nat \<Rightarrow> string \<times> LineChange \<Rightarrow> string" where
  "auto_message c i change =
     RED c @ ''#'' @ str_of_nat i @ '': '' @ fst change @ '':''
       @ str_of_int (line_number (snd change) + 1) @ '':'' @ RST c"

definition expected_message :: "clr \<Rightarrow> string \<times> LineChange \<Rightarrow> string" where
  "expected_message c change =
     RED c @ ''  Expected '' @ [CHR 0x22] @ expected (snd change) @ [CHR 0x22] @ RST c"

definition found_message :: "clr \<Rightarrow> string \<Rightarrow> string" where
  "found_message c line = RED c @ ''  Found '' @ [CHR 0x22] @ line @ [CHR 0x22] @ RST c"

definition correcting_message :: "clr \<Rightarrow> string \<times> LineChange \<Rightarrow> string" where
  "correcting_message c change =
     BLU c @ BLD c @ ''Correcting '' @ fst change @ '' line ''
       @ str_of_int (line_number (snd change) + 1) @ RST c"

text \<open>
  The loop that lists the auto-fixable entries when \<^verbatim>\<open>fix\<close> is off; \<open>i\<close> is the
  counter of \<^verbatim>\<open>enumerate\<close>.  Reading the file or indexing its lines can raise.
\<close>

fun report_auto_changes ::
  "clr \<Rightarrow> string \<Rightarrow> nat \<Rightarrow> (string \<times> LineChange) list \<Rightarrow> world \<Rightarrow> err option \<times> world" where
  "report_auto_changes c root i [] w = (None, w)"
| "report_auto_changes c root i (change # rest) w =
     (let w1 = print (auto_message c i change) w;
          w2 = print (expected_message c change) w1
      in case read_text w2 (os_path_join root (fst change)) of
           Inl e \<Rightarrow> (Some e, w2)
         | Inr t \<Rightarrow>
             (let lines = splitlines t in
              case py_index (length lines) (line_number (snd change)) of
                None \<Rightarrow> (Some IndexError, w2)
              | Some k \<Rightarrow>
                  report_auto_changes c root (Suc i) rest
                    (print (found_message c (lines ! k)) w2)))"

text \<open>
  The loop that applies the auto-fixable entries when \<^verbatim>\<open>fix\<close> is on: \<open>correct_one\<close> is
  its body.
  \<^verbatim>\<open>
  with open(os.path.join(self.projroot, change[0]), encoding='utf-8') as infile:
      lines = infile.read().splitlines()
  lines[change[1].line_number] = change[1].expected
  with open(os.path.join(self.projroot, change[0]), 'w', encoding='utf-8') as outfile:
      outfile.write('\n'.join(lines) + '\n')
  \<close>
\<close>

definition correct_one :: "clr \<Rightarrow> string \<Rightarrow> string \<times> LineChange \<Rightarrow> world \<Rightarrow> err option \<times> world" where
  "correct_one c root change w =
     (let w1 = print (correcting_message c change) w
      in case read_text w1 (os_path_join root (fst change)) of
           Inl e \<Rightarrow> (Some e, w1)
         | Inr t \<Rightarrow>
             (let lines = splitlines t in
              case py_index (length lines) (line_number (snd change)) of
                None \<Rightarrow> (Some IndexError, w1)
              | Some k \<Rightarrow>
                  (None,
                   write_text (os_path_join root (fst change))
                     (str_join [CHR 0x0A] (lines[k := expected (snd change)]) @ [CHR 0x0A]) w1)))"

fun correct_auto_changes ::
  "clr \<Rightarrow> string \<Rightarrow> (string \<times> LineChange) list \<Rightarrow> world \<Rightarrow> err option \<times> world" where
  "correct_auto_changes c root [] w = (None, w)"
| "correct_auto_changes c root (change # rest) w =
     (case correct_one c root change w of
        (Some e, w1) \<Rightarrow> (Some e, w1)
      | (None, w1) \<Rightarrow> correct_auto_changes c root rest w1)"

definition apply_line_changes :: "clr \<Rightarrow> updater \<Rightarrow> world \<Rightarrow> err option \<times> world" where
  "apply_line_changes c s w =
     (if manual_changes s \<noteq> [] then
        (Some (CleanError []),
         fold print (map (manual_message c) (manual_changes s))
           (print (RED c @ ''Found erroneous lines requiring manual correction:'' @ RST c) w))
      else if auto_changes s \<noteq> [] then
        (if \<not> fix_mode s then
           (case report_auto_changes c (projroot s) 0 (auto_changes s) w of
              (Some e, w') \<Rightarrow> (Some e, w')
            | (None, w') \<Rightarrow>
                (Some (CleanError (''All '' @ str_of_nat (length (auto_changes s))
                   @ '' errors are auto-fixable; run tools/pcommand update_project''
                   @ '' --fix to apply corrections.'')), w'))
         else correct_auto_changes c (projroot s) (auto_changes s) w)
      else
        (case (header_files s, source_files s) of
           (Some hs, Some ss) \<Rightarrow>
             (None, print (''No issues found in '' @ str_of_nat (length hs + length ss)
                             @ '' source files.'') w)
         | _ \<Rightarrow> (Some AssertionError, w)))"

subsection \<open>The whole-file pass\<close>

definition errfile_of :: "updater \<Rightarrow> string" where
  "errfile_of s = os_path_join (projroot s) ''build/project_check_error_file''"

definition out_of_date_message :: "string \<Rightarrow> string \<Rightarrow> string \<Rightarrow> string" where
  "out_of_date_message fname path1 path2 =
     ''Found out-of-date project file: '' @ [CHR 0x27] @ fname @ [CHR 0x27] @ ''.'' @ [CHR 0x0A]
       @ ''To see what would change, run:'' @ [CHR 0x0A]
       @ ''  diff '' @ [CHR 0x27] @ path1 @ [CHR 0x27] @ '' '' @ [CHR 0x27] @ path2 @ [CHR 0x27]
       @ [CHR 0x0A]"

text \<open>
  What the loop reads for one artifact: \<open>None\<close> when the path does not exist, the text
  otherwise; opening a directory raises.
\<close>

definition read_orig :: "world \<Rightarrow> string \<Rightarrow> err + string option" where
  "read_orig w p =
     (if path_exists w p then
        (case read_text w p of Inl e \<Rightarrow> Inl e | Inr t \<Rightarrow> Inr (Some t))
      else Inr None)"

text \<open>
  The loop over \<^verbatim>\<open>self._generated_files.items()\<close>; \<open>n\<close> is
  \<^verbatim>\<open>unchanged_file_count\<close>.
\<close>

fun apply_file_loop ::
  "clr \<Rightarrow> updater \<Rightarrow> (string \<times> string) list \<Rightarrow> nat \<Rightarrow> world \<Rightarrow> (err + nat) \<times> world" where
  "apply_file_loop c s [] n w = (Inr n, w)"
| "apply_file_loop c s ((fname, fcode) # rest) n w =
     (let f_path_abs = os_path_join (projroot s) fname;
          fcodefin = replace_crlf fcode
      in case read_orig w f_path_abs of
           Inl e \<Rightarrow> (Inl e, w)
         | Inr f_orig \<Rightarrow>
             if f_orig = Some fcodefin then apply_file_loop c s rest (n + 1) w
             else if check s then
               (let errfile = errfile_of s;
                    w1 = makedirs (os_path_dirname errfile) w;
                    w2 = write_text errfile fcodefin w1
                in (Inl (CleanError (out_of_date_message fname f_path_abs errfile)), w2))
             else
               apply_file_loop c s rest n
                 (write_text f_path_abs fcode
                    (print (BLU c @ ''Writing project file: '' @ fname @ RST c) w)))"

definition apply_file_changes :: "clr \<Rightarrow> updater \<Rightarrow> world \<Rightarrow> err option \<times> world" where
  "apply_file_changes c s w =
     (case apply_file_loop c s (generated_files s) 0 w of
        (Inl e, w') \<Rightarrow> (Some e, w')
      | (Inr n, w') \<Rightarrow>
          (None, if n > 0 then print (str_of_nat n @ '' project files are up to date.'') w'
                 else w'))"

text \<open>The last two statements of \<^verbatim>\<open>run\<close>: the line pass, then the whole-file pass.\<close>

definition apply_phase :: "clr \<Rightarrow> updater \<Rightarrow> world \<Rightarrow> err option \<times> world" where
  "apply_phase c s w =
     (case apply_line_changes c s w of
        (Some e, w') \<Rightarrow> (Some e, w')
      | (None, w') \<Rightarrow> apply_file_changes c s w')"

subsection \<open>The source scan\<close>

text \<open>
  \<^verbatim>\<open>
  exts = ['.c', '.cc', '.cpp', '.cxx', '.m', '.mm', '.swift']
  header_exts = ['.h']
  for root, _dirs, files in os.walk(scan_dir):
      for ftst in files:
          if any(ftst.endswith(ext) for ext in exts):
              src_files.add(os.path.join(root, ftst)[len(scan_dir) :])
          if any(ftst.endswith(ext) for ext in header_exts):
              header_files.add(os.path.join(root, ftst)[len(scan_dir) :])
  self._source_files = sorted(s for s in src_files if '/mgen/' not in s)
  self._header_files = sorted(h for h in header_files if '/mgen/' not in h)
  \<close>
  \<open>walked\<close> lists the pairs (root, file name) in the order of the two loops, and
  \<open>found_with\<close> is the set that the loops build for one table of extensions.
\<close>

definition exts :: "string list" where
  "exts = [''.c'', ''.cc'', ''.cpp'', ''.cxx'', ''.m'', ''.mm'', ''.swift'']"

definition header_exts :: "string list" where
  "header_exts = [''.h'']"

definition walked :: "(string \<times> string list \<times> string list) list \<Rightarrow> (string \<times> string) list" where
  "walked wk = concat (map (\<lambda>(root, dirs, fnames). map (Pair root) fnames) wk)"

definition found_with ::
  "string list \<Rightarrow> string \<Rightarrow> (string \<times> string list \<times> string list) list \<Rightarrow> string set" where
  "found_with es scan_dir wk =
     set (map (\<lambda>(root, ftst). drop (length scan_dir) (os_path_join root ftst))
            (filter (\<lambda>(root, ftst). list_ex (\<lambda>ext. suffix ext ftst) es) (walked wk)))"

definition find_sources_and_headers :: "string \<Rightarrow> world \<Rightarrow> updater \<Rightarrow> updater" where
  "find_sources_and_headers scan_dir w s =
     (let src_files = found_with exts scan_dir (walk w scan_dir);
          hdr_files = found_with header_exts scan_dir (walk w scan_dir)
      in s\<lparr>source_files := Some (sorted_list_of_set {x \<in> src_files. \<not> sublist ''/mgen/'' x}),
           header_files := Some (sorted_list_of_set {h \<in> hdr_files. \<not> sublist ''/mgen/'' h})\<rparr>)"

subsection \<open>Queueing updates and corrections\<close>

definition enqueue_update :: "string \<Rightarrow> string option \<Rightarrow> updater \<Rightarrow> updater" where
  "enqueue_update path data s =
     s\<lparr>enqueued_updates := AList.update path data (enqueued_updates s)\<rparr>"

definition add_line_correction ::
  "string \<Rightarrow> int \<Rightarrow> string \<Rightarrow> bool \<Rightarrow> updater \<Rightarrow> err + updater" where
  "add_line_correction filename n e auto s =
     (if \<not> n \<ge> 0 then Inl AssertionError
      else Inr (s\<lparr>line_corrections :=
                  AList.map_default filename
                    [\<lparr>line_number = n, expected = e, can_auto_update = auto\<rparr>]
                    (\<lambda>entries. entries @ [\<lparr>line_number = n, expected = e, can_auto_update = auto\<rparr>])
                    (line_corrections s)\<rparr>))"

subsection \<open>Generating files\<close>

text \<open>
  The text that a renderer produces is outside the claims: each renderer is a parameter
  that reads the world and the updater and returns its text or raises.  The first six are
  the functions of other modules that \<^verbatim>\<open>_updater.py\<close> calls, \<open>feature_set_names\<close> is the
  keys of the property \<^verbatim>\<open>feature_sets\<close>, and the last three are the texts computed by
  \<^verbatim>\<open>_generate_visual_studio_project\<close>, \<^verbatim>\<open>_generate_visual_studio_project_filters\<close> (from
  the project text) and \<^verbatim>\<open>_generate_cmake_file\<close>.  How \<^verbatim>\<open>generate_file\<close> dispatches,
  recurses and caches is modelled as written.
\<close>

record renderers =
  update_xcode_project ::
    "world \<Rightarrow> string \<Rightarrow> string \<Rightarrow> string \<Rightarrow> string list \<Rightarrow> string \<Rightarrow> err + string"
  generate_top_level_makefile :: "world \<Rightarrow> string \<Rightarrow> string \<Rightarrow> err + string"
  generate_assets_makefile_ext ::
    "world \<Rightarrow> string \<Rightarrow> string \<Rightarrow> string \<Rightarrow> (string \<times> string) list \<Rightarrow> string list
       \<Rightarrow> err + (string \<times> string) list"
  generate_meta_makefile_ext :: "world \<Rightarrow> string \<Rightarrow> string \<Rightarrow> err + (string \<times> string) list"
  generate_app_module_ext :: "world \<Rightarrow> string \<Rightarrow> string list \<Rightarrow> string \<Rightarrow> err + string"
  resources_makefile_run :: "world \<Rightarrow> string \<Rightarrow> string \<Rightarrow> string \<Rightarrow> err + string"
  feature_set_names :: "world \<Rightarrow> string \<Rightarrow> err + string list"
  visual_studio_project_text :: "world \<Rightarrow> updater \<Rightarrow> string \<Rightarrow> string \<Rightarrow> err + string"
  visual_studio_filters_text :: "string \<Rightarrow> err + string"
  cmake_file_text :: "world \<Rightarrow> updater \<Rightarrow> string \<Rightarrow> err + string"

text \<open>\<^verbatim>\<open>self._generated_files[path] = text\<close>, and the same for every item of a
  dictionary of output files.\<close>

definition store :: "string \<Rightarrow> string \<Rightarrow> updater \<Rightarrow> updater" where
  "store path text s = s\<lparr>generated_files := AList.update path text (generated_files s)\<rparr>"

definition store_all :: "(string \<times> string) list \<Rightarrow> updater \<Rightarrow> updater" where
  "store_all outfiles s = fold (\<lambda>(out_path, out_contents). store out_path out_contents) outfiles s"

definition removesuffix :: "string \<Rightarrow> string \<Rightarrow> string" where
  "removesuffix suf t = (if suf \<noteq> [] \<and> suffix suf t then take (length t - length suf) t else t)"

text \<open>
  The input of a renderer: the data given to \<^verbatim>\<open>enqueue_update\<close> if there is any, the
  file on disk otherwise.
\<close>

definition existing_data_of :: "world \<Rightarrow> updater \<Rightarrow> string \<Rightarrow> err + string" where
  "existing_data_of w s path =
     (case map_of (enqueued_updates s) path of
        Some (Some data) \<Rightarrow> Inr data
      | _ \<Rightarrow> read_text w (os_path_join (projroot s) path))"

definition generate_xcode_project ::
  "renderers \<Rightarrow> world \<Rightarrow> updater \<Rightarrow> string \<Rightarrow> string \<Rightarrow> err + updater" where
  "generate_xcode_project R w s path existing_data =
     (case source_files s of None \<Rightarrow> Inl AssertionError | Some srcs \<Rightarrow>
      case header_files s of None \<Rightarrow> Inl AssertionError | Some hdrs \<Rightarrow>
        let all_files = sort (map (\<lambda>p. ''ballistica'' @ p) (srcs @ hdrs)) in
        if \<not> suffix ''.pbxproj'' path then Inl AssertionError
        else
          case update_xcode_project R w (projroot s) (os_path_dirname path) existing_data
                 all_files (projname s) of
            Inl e \<Rightarrow> Inl e
          | Inr text \<Rightarrow> Inr (store path text s))"

definition generate_visual_studio_project ::
  "renderers \<Rightarrow> world \<Rightarrow> updater \<Rightarrow> string \<Rightarrow> string \<Rightarrow> err + updater" where
  "generate_visual_studio_project R w s fname existing_data =
     (case visual_studio_project_text R w s fname existing_data of
        Inl e \<Rightarrow> Inl e
      | Inr out \<Rightarrow> Inr (store fname out s))"

definition generate_cmake_file ::
  "renderers \<Rightarrow> world \<Rightarrow> updater \<Rightarrow> string \<Rightarrow> string \<Rightarrow> err + updater" where
  "generate_cmake_file R w s fname existing_data =
     (case cmake_file_text R w s existing_data of
        Inl e \<Rightarrow> Inl e
      | Inr text \<Rightarrow> Inr (store fname text s))"

definition generate_top_level_makefile_file ::
  "renderers \<Rightarrow> world \<Rightarrow> updater \<Rightarrow> string \<Rightarrow> string \<Rightarrow> err + updater" where
  "generate_top_level_makefile_file R w s path existing_data =
     (case generate_top_level_makefile R w (projroot s) existing_data of
        Inl e \<Rightarrow> Inl e
      | Inr text \<Rightarrow> Inr (store path text s))"

definition generate_passthrough_file :: "updater \<Rightarrow> string \<Rightarrow> string \<Rightarrow> err + updater" where
  "generate_passthrough_file s path existing_data = Inr (store path existing_data s)"

definition generate_resources_makefile ::
  "renderers \<Rightarrow> world \<Rightarrow> updater \<Rightarrow> string \<Rightarrow> string \<Rightarrow> err + updater" where
  "generate_resources_makefile R w s path existing_data =
     (case resources_makefile_run R w (projroot s) existing_data (projname s) of
        Inl e \<Rightarrow> Inl e
      | Inr text \<Rightarrow> Inr (store path text s))"

definition generate_meta_makefile ::
  "renderers \<Rightarrow> world \<Rightarrow> updater \<Rightarrow> string \<Rightarrow> err + updater" where
  "generate_meta_makefile R w s existing_data =
     (case generate_meta_makefile_ext R w (projroot s) existing_data of
        Inl e \<Rightarrow> Inl e
      | Inr outfiles \<Rightarrow> Inr (store_all outfiles s))"

definition generate_app_module ::
  "renderers \<Rightarrow> world \<Rightarrow> updater \<Rightarrow> string \<Rightarrow> string \<Rightarrow> err + updater" where
  "generate_app_module R w s path existing_data =
     (case feature_set_names R w (projroot s) of
        Inl e \<Rightarrow> Inl e
      | Inr names \<Rightarrow>
          (case generate_app_module_ext R w (projroot s) names existing_data of
             Inl e \<Rightarrow> Inl e
           | Inr text \<Rightarrow> Inr (store path text s)))"

text \<open>
  The rank of a path bounds the depth of the calls that \<^verbatim>\<open>generate_file\<close> makes for
  it: an asset manifest asks for the assets Makefile, which asks for the two meta
  manifests, which ask for the meta Makefile; a filters file asks for its project file.
\<close>

definition rank :: "string \<Rightarrow> nat" where
  "rank path =
     (if suffix ''/project.pbxproj'' path then 0
      else if suffix ''.vcxproj.filters'' path then 1
      else if suffix ''.vcxproj'' path then 0
      else if suffix ''CMakeLists.txt'' path then 0
      else if path = ''Makefile'' then 0
      else if path = ''src/assets/Makefile'' then 2
      else if prefix ''src/assets/.asset_manifest_public'' path then 3
      else if prefix ''src/assets/.asset_manifest_private'' path then 3
      else if path = ''src/resources/Makefile'' then 0
      else if path = ''src/meta/Makefile'' then 0
      else if path = ''src/assets/ba_data/python/babase/_app.py'' then 0
      else if prefix ''src/meta/.meta_manifest_'' path then 1
      else 0)"

text \<open>The ranks of the paths for which \<^verbatim>\<open>generate_file\<close> calls itself.\<close>

lemma rank_meta_manifest:
  "rank ''src/meta/.meta_manifest_public.json'' = 1"
  "rank ''src/meta/.meta_manifest_private.json'' = 1"
  by (simp_all add: rank_def suffix_to_prefix)

lemma rank_makefiles: "rank ''src/assets/Makefile'' = 2" "rank ''src/meta/Makefile'' = 0"
  by (simp_all add: rank_def suffix_to_prefix)

lemma rank_removesuffix:
  assumes "suffix ''.vcxproj.filters'' path"
  shows "rank (removesuffix ''.filters'' path) = 0"
proof -
  from assms obtain q where q: "path = q @ ''.vcxproj.filters''"
    by (auto simp add: suffix_def)
  have r: "removesuffix ''.filters'' path = q @ ''.vcxproj''"
    by (simp add: removesuffix_def q suffix_def)
  have "suffix ''.vcxproj'' (q @ ''.vcxproj'')"
    by (simp add: suffix_def)
  moreover have "\<not> suffix ''.vcxproj.filters'' (q @ ''.vcxproj'')"
    by (auto simp add: suffix_to_prefix)
  ultimately show ?thesis
    by (simp add: rank_def r)
qed

text \<open>
  \<^verbatim>\<open>generate_file\<close> with the two renderers that call it back; the constant is
  \<open>generate_file'\<close>, since the plain name is a command of Isabelle.  A path that is not in
  the cache is added to \<open>render_calls\<close> before its renderer is chosen.
\<close>

function generate_file' :: "renderers \<Rightarrow> world \<Rightarrow> updater \<Rightarrow> string \<Rightarrow> err + string \<times> updater"
  and generate_visual_studio_project_filters ::
    "renderers \<Rightarrow> world \<Rightarrow> updater \<Rightarrow> string \<Rightarrow> string \<Rightarrow> err + updater"
  and generate_assets_makefile ::
    "renderers \<Rightarrow> world \<Rightarrow> updater \<Rightarrow> string \<Rightarrow> string \<Rightarrow> err + updater"
where
  "generate_file' R w s path =
     (if \<not> can_generate_files s then Inl (RuntimeError ''Generate cannot be called right now.'')
      else
        case
          (if path \<notin> set (map fst (generated_files s)) then
             (case existing_data_of w s path of
                Inl e \<Rightarrow> Inl e
              | Inr existing_data \<Rightarrow>
                  let s0 = s\<lparr>render_calls := render_calls s @ [path]\<rparr> in
                  if suffix ''/project.pbxproj'' path then
                    generate_xcode_project R w s0 path existing_data
                  else if suffix ''.vcxproj.filters'' path then
                    generate_visual_studio_project_filters R w s0 path existing_data
                  else if suffix ''.vcxproj'' path then
                    generate_visual_studio_project R w s0 path existing_data
                  else if suffix ''CMakeLists.txt'' path then
                    generate_cmake_file R w s0 path existing_data
                  else if path = ''Makefile'' then
                    generate_top_level_makefile_file R w s0 path existing_data
                  else if path = ''src/assets/Makefile'' then
                    generate_assets_makefile R w s0 path existing_data
                  else if prefix ''src/assets/.asset_manifest_public'' path then
                    (case generate_file' R w s0 ''src/assets/Makefile'' of
                       Inl e \<Rightarrow> Inl e | Inr (text, s1) \<Rightarrow> Inr s1)
                  else if prefix ''src/assets/.asset_manifest_private'' path then
                    (if public s0 then generate_passthrough_file s0 path existing_data
                     else
                       (case generate_file' R w s0 ''src/assets/Makefile'' of
                          Inl e \<Rightarrow> Inl e | Inr (text, s1) \<Rightarrow> Inr s1))
                  else if path = ''src/resources/Makefile'' then
                    generate_resources_makefile R w s0 path existing_data
                  else if path = ''src/meta/Makefile'' then
                    generate_meta_makefile R w s0 existing_data
                  else if path = ''src/assets/ba_data/python/babase/_app.py'' then
                    generate_app_module R w s0 path existing_data
                  else if prefix ''src/meta/.meta_manifest_'' path then
                    (case generate_file' R w s0 ''src/meta/Makefile'' of
                       Inl e \<Rightarrow> Inl e
                     | Inr (text, s1) \<Rightarrow>
                         if path \<in> set (map fst (generated_files s1)) then Inr s1
                         else Inl AssertionError)
                  else
                    Inl (RuntimeError (''No known formula to create project file: ''
                           @ [CHR 0x27] @ path @ [CHR 0x27] @ ''.'')))
           else Inr s)
        of
          Inl e \<Rightarrow> Inl e
        | Inr s' \<Rightarrow>
            (case map_of (generated_files s') path of
               None \<Rightarrow> Inl AssertionError
             | Some text \<Rightarrow> Inr (text, s')))"
| "generate_visual_studio_project_filters R w s fname existing_data =
     (if \<not> suffix ''.filters'' fname then Inl AssertionError
      else
        case generate_file' R w s (removesuffix ''.filters'' fname) of
          Inl e \<Rightarrow> Inl e
        | Inr (project, s1) \<Rightarrow>
            (case visual_studio_filters_text R project of
               Inl e \<Rightarrow> Inl e
             | Inr text \<Rightarrow> Inr (store fname text s1)))"
| "generate_assets_makefile R w s path existing_data =
     (case generate_file' R w s ''src/meta/.meta_manifest_public.json'' of
        Inl e \<Rightarrow> Inl e
      | Inr (public_manifest, s1) \<Rightarrow>
          (case generate_file' R w s1 ''src/meta/.meta_manifest_private.json'' of
             Inl e \<Rightarrow> Inl e
           | Inr (private_manifest, s2) \<Rightarrow>
               let meta_manifests =
                     AList.update ''src/meta/.meta_manifest_private.json'' private_manifest
                       (AList.update ''src/meta/.meta_manifest_public.json'' public_manifest [])
               in
               case feature_set_names R w (projroot s2) of
                 Inl e \<Rightarrow> Inl e
               | Inr names \<Rightarrow>
                   let explicit_sources =
                         (if ''base'' \<in> set names
                          then [''src/assets/ba_data/python/babase/_app.py''] else [])
                   in
                   case generate_assets_makefile_ext R w (projroot s2) path existing_data
                          meta_manifests explicit_sources of
                     Inl e \<Rightarrow> Inl e
                   | Inr outfiles \<Rightarrow> Inr (store_all outfiles s2)))"
  by pat_completeness auto

termination
  apply (relation "measure (\<lambda>x. case x of
      Inl (R, w, s, path) \<Rightarrow> 2 * rank path + 1
    | Inr (Inl (R, w, s, fname, e)) \<Rightarrow> 2 * rank (removesuffix ''.filters'' fname) + 2
    | Inr (Inr (R, w, s, path, e)) \<Rightarrow> 4)")
   apply simp
  apply (simp_all add: rank_meta_manifest rank_makefiles rank_removesuffix)
  apply (simp_all add: rank_def)
  done

declare generate_file'.simps [simp del]
declare generate_visual_studio_project_filters.simps [simp del]
declare generate_assets_makefile.simps [simp del]

subsection \<open>Construction\<close>

text \<open>
  A value of the project configuration: a \<^verbatim>\<open>bool\<close>, or a value of another type with its
  truth value.  \<^verbatim>\<open>getprojectconfig\<close> and \<^verbatim>\<open>getlocalconfig\<close> of \<^verbatim>\<open>efrotools\<close> read a
  configuration file and \<^verbatim>\<open>os.path.abspath\<close> depends on the working directory; they
  are parameters.
\<close>

datatype pyval = PyBool bool | PyOther bool

fun truthy :: "pyval \<Rightarrow> bool" where
  "truthy (PyBool b) = b"
| "truthy (PyOther t) = t"

record env =
  abspath :: "string \<Rightarrow> string"
  getprojectconfig :: "world \<Rightarrow> string \<Rightarrow> err + (string \<rightharpoonup> pyval)"
  getlocalconfig :: "world \<Rightarrow> string \<Rightarrow> err + (string \<rightharpoonup> pyval)"

text \<open>The file accesses of the constructor, in the order in which it makes them.\<close>

datatype io_event = ReadProjectConfig string | ReadLocalConfig string | PathExists string

definition update_meta_makefile :: "updater \<Rightarrow> updater" where
  "update_meta_makefile s = enqueue_update ''src/meta/Makefile'' None s"

definition update_resources_makefile :: "updater \<Rightarrow> updater" where
  "update_resources_makefile s = enqueue_update ''src/resources/Makefile'' None s"

definition update_assets_makefile :: "updater \<Rightarrow> updater" where
  "update_assets_makefile s = enqueue_update ''src/assets/Makefile'' None s"

definition update_top_level_makefile :: "updater \<Rightarrow> updater" where
  "update_top_level_makefile s = enqueue_update ''Makefile'' None s"

definition update_app_module :: "updater \<Rightarrow> updater" where
  "update_app_module s = enqueue_update ''src/assets/ba_data/python/babase/_app.py'' None s"

definition update_cmake_files :: "world \<Rightarrow> updater \<Rightarrow> io_event list \<times> (err + updater)" where
  "update_cmake_files w s =
     (let s1 = enqueue_update ''ballisticakit-cmake/CMakeLists.txt'' None s;
          fname = ''ballisticakit-android/BallisticaKit/src/main/cpp/CMakeLists.txt''
      in if \<not> public s1 then ([], Inr (enqueue_update fname None s1))
         else if path_exists w fname then ([PathExists fname], Inl AssertionError)
         else ([PathExists fname], Inr s1))"

definition update_visual_studio_project :: "string \<Rightarrow> updater \<Rightarrow> updater" where
  "update_visual_studio_project basename s =
     (let fname = ''ballisticakit-windows/'' @ basename @ ''/BallisticaKit'' @ basename
                    @ ''.vcxproj''
      in enqueue_update fname None (enqueue_update (fname @ ''.filters'') None s))"

definition update_visual_studio_projects :: "updater \<Rightarrow> updater" where
  "update_visual_studio_projects s =
     (let s1 = update_visual_studio_project ''Headless''
                 (update_visual_studio_project ''Generic'' s)
      in if \<not> public s1 then
           update_visual_studio_project ''OculusPlus''
             (update_visual_studio_project ''Oculus''
               (update_visual_studio_project ''HeadlessPlus''
                 (update_visual_studio_project ''GenericPlus'' s1)))
         else s1)"

definition update_xcode_projects :: "world \<Rightarrow> updater \<Rightarrow> io_event list \<times> (err + updater)" where
  "update_xcode_projects w s =
     (let projpath = ''ballisticakit-xcode/BallisticaKit.xcodeproj/project.pbxproj'' in
      if public s then
        (if path_exists w projpath then ([PathExists projpath], Inl AssertionError)
         else ([PathExists projpath], Inr s))
      else ([], Inr (enqueue_update projpath None s)))"

text \<open>
  \<^verbatim>\<open>__init__(self, projroot, *, check, fix, empty=False, projname='BallisticaKit')\<close>.
  The result is the list of file accesses made and the exception or the new updater;
  \<open>emp\<close> is the argument \<^verbatim>\<open>empty\<close>.
\<close>

definition init ::
  "env \<Rightarrow> world \<Rightarrow> string \<Rightarrow> bool \<Rightarrow> bool \<Rightarrow> bool \<Rightarrow> string \<Rightarrow> io_event list \<times> (err + updater)" where
  "init E w root ck fx emp pname =
     (if fx \<and> ck then ([], Inl (RuntimeError ''fix and check cannot both be enabled''))
      else
        case getprojectconfig E w root of
          Inl e \<Rightarrow> ([ReadProjectConfig root], Inl e)
        | Inr cfg \<Rightarrow>
        case (case cfg ''public'' of None \<Rightarrow> Some False | Some (PyBool b) \<Rightarrow> Some b
              | Some (PyOther t) \<Rightarrow> None) of
          None \<Rightarrow> ([ReadProjectConfig root], Inl AssertionError)
        | Some pub \<Rightarrow>
        case getlocalconfig E w root of
          Inl e \<Rightarrow> ([ReadProjectConfig root, ReadLocalConfig root], Inl e)
        | Inr lcfg \<Rightarrow>
          let io = [ReadProjectConfig root, ReadLocalConfig root];
              s = \<lparr>projname = pname, projroot = abspath E root, check = ck, fix_mode = fx,
                   public = pub, source_files = None, header_files = None,
                   enqueued_updates = [], line_corrections = [],
                   can_generate_files = False, generated_files = [],
                   license_line_checks =
                     (case lcfg ''license_line_checks'' of None \<Rightarrow> True | Some v \<Rightarrow> truthy v),
                   run_file_checks = True, render_calls = []\<rparr>
          in
          if emp then (io, Inr (s\<lparr>run_file_checks := False\<rparr>))
          else
            let s4 = update_top_level_makefile (update_assets_makefile
                       (update_resources_makefile (update_meta_makefile s)))
            in
            case update_cmake_files w s4 of
              (io1, Inl e) \<Rightarrow> (io @ io1, Inl e)
            | (io1, Inr s5) \<Rightarrow>
            case update_xcode_projects w (update_visual_studio_projects s5) of
              (io2, Inl e) \<Rightarrow> (io @ io1 @ io2, Inl e)
            | (io2, Inr s7) \<Rightarrow> (io @ io1 @ io2, Inr (update_app_module s7)))"

subsection \<open>A run\<close>

definition prepare_to_generate :: "world \<Rightarrow> updater \<Rightarrow> err + updater" where
  "prepare_to_generate w s =
     (if \<not> isdir w (os_path_join (projroot s) ''config'')
         \<or> \<not> isdir w (os_path_join (projroot s) ''tools'')
      then Inl (RuntimeError (''ProjectUpdater projroot '' @ [CHR 0x27] @ projroot s
                  @ [CHR 0x27] @ '' is not valid.''))
      else Inr ((find_sources_and_headers (os_path_join (projroot s) ''src/ballistica'') w s)
                  \<lparr>can_generate_files := True\<rparr>))"

text \<open>\<^verbatim>\<open>for path in self._enqueued_updates: self.generate_file(path)\<close>.\<close>

fun generate_all :: "renderers \<Rightarrow> world \<Rightarrow> updater \<Rightarrow> string list \<Rightarrow> err + updater" where
  "generate_all R w s [] = Inr s"
| "generate_all R w s (path # paths) =
     (case generate_file' R w s path of
        Inl e \<Rightarrow> Inl e
      | Inr (text, s1) \<Rightarrow> generate_all R w s1 paths)"

text \<open>
  The checks of \<^verbatim>\<open>batools.project._checks\<close> are given the updater itself and may call
  any of its methods, so each is a parameter that reads the world and returns the updater
  as it leaves it, or raises.
\<close>

record checks =
  check_makefiles :: "world \<Rightarrow> updater \<Rightarrow> err + updater"
  check_python_files :: "world \<Rightarrow> updater \<Rightarrow> err + updater"
  check_sync_states :: "world \<Rightarrow> updater \<Rightarrow> err + updater"
  check_misc :: "world \<Rightarrow> updater \<Rightarrow> err + updater"
  check_source_files :: "world \<Rightarrow> updater \<Rightarrow> err + updater"
  check_headers :: "world \<Rightarrow> updater \<Rightarrow> err + updater"

fun run_each :: "(world \<Rightarrow> updater \<Rightarrow> err + updater) list \<Rightarrow> world \<Rightarrow> updater \<Rightarrow> err + updater" where
  "run_each [] w s = Inr s"
| "run_each (f # fs) w s = (case f w s of Inl e \<Rightarrow> Inl e | Inr s1 \<Rightarrow> run_each fs w s1)"

definition run_checks :: "checks \<Rightarrow> world \<Rightarrow> updater \<Rightarrow> err + updater" where
  "run_checks C w s =
     run_each [check_makefiles C, check_python_files C, check_sync_states C, check_misc C,
               check_source_files C, check_headers C] w s"

text \<open>Equality of two dictionaries: the same keys with the same values, in any order.\<close>

definition dict_eq :: "('k \<times> 'v) list \<Rightarrow> ('k \<times> 'v) list \<Rightarrow> bool" where
  "dict_eq a b \<longleftrightarrow> (\<forall>k \<in> set (map fst a) \<union> set (map fst b). map_of a k = map_of b k)"

text \<open>
  \<^verbatim>\<open>run\<close> up to the assertion on the queue: the result is the updater with which the
  two passes are entered, or the exception raised before them.
\<close>

definition run_to_apply :: "renderers \<Rightarrow> checks \<Rightarrow> world \<Rightarrow> updater \<Rightarrow> err + updater" where
  "run_to_apply R C w s =
     (case prepare_to_generate w s of
        Inl e \<Rightarrow> Inl e
      | Inr s1 \<Rightarrow>
          let start_updates = enqueued_updates s1 in
          case generate_all R w s1 (map fst (enqueued_updates s1)) of
            Inl e \<Rightarrow> Inl e
          | Inr s2 \<Rightarrow>
              (case (if run_file_checks s2 then run_checks C w s2 else Inr s2) of
                 Inl e \<Rightarrow> Inl e
               | Inr s3 \<Rightarrow>
                   let s4 = s3\<lparr>can_generate_files := False\<rparr> in
                   if \<not> dict_eq start_updates (enqueued_updates s4) then Inl AssertionError
                   else Inr s4))"

definition run :: "renderers \<Rightarrow> checks \<Rightarrow> clr \<Rightarrow> world \<Rightarrow> updater \<Rightarrow> err option \<times> world" where
  "run R C c w s =
     (case run_to_apply R C w s of
        Inl e \<Rightarrow> (Some e, w)
      | Inr s4 \<Rightarrow> apply_phase c s4 w)"

subsection \<open>Concrete states\<close>

text \<open>
  A terminal, a project at \<^verbatim>\<open>/p\<close> with two files, and an updater for it with nothing
  queued; the examples below change single fields of them.
\<close>

definition clr0 :: clr where
  "clr0 = \<lparr>RED = ''<red>'', BLU = ''<blu>'', BLD = ''<bld>'', RST = ''<rst>''\<rparr>"

definition world0 :: world where
  "world0 =
     \<lparr>files = map_of [(''/p/a.cc'', ''bad'' @ [CHR 0x0A] @ ''two'' @ [CHR 0x0A]),
                      (''/p/Makefile'', ''old'' @ [CHR 0x0A])],
      isdir = (\<lambda>p. p \<in> set [''/p'', ''/p/config'', ''/p/tools'', ''/p/src/ballistica'']),
      walk = (\<lambda>d. if d = ''/p/src/ballistica''
                   then [(''/p/src/ballistica'', [''base'', ''mgen''], [''a.cc'', ''a.h'', ''notes.txt'']),
                         (''/p/src/ballistica/base'', [], [''b.mm'', ''b.h'']),
                         (''/p/src/ballistica/mgen'', [], [''gen.cc'', ''gen.h''])]
                   else []),
      stdout = [], written = []\<rparr>"

definition updater0 :: updater where
  "updater0 =
     \<lparr>projname = ''BallisticaKit'', projroot = ''/p'', check = False, fix_mode = False,
      public = False, source_files = Some [], header_files = Some [],
      enqueued_updates = [], line_corrections = [], can_generate_files = False,
      generated_files = [], license_line_checks = True, run_file_checks = False,
      render_calls = []\<rparr>"

definition manual_entry :: LineChange where
  "manual_entry = \<lparr>line_number = 1, expected = ''second'', can_auto_update = False\<rparr>"

definition auto_entry :: LineChange where
  "auto_entry = \<lparr>line_number = 0, expected = ''good'', can_auto_update = True\<rparr>"

text \<open>
  Renderers and checks for the examples: the top-level Makefile is rendered as one line
  \<^verbatim>\<open>new\<close>, the two Makefiles with manifests give their manifests besides themselves, and
  the check of the source files asks for one auto-fixable correction of \<^verbatim>\<open>a.cc\<close>.
\<close>

definition R0 :: renderers where
  "R0 =
     \<lparr>update_xcode_project = (\<lambda>w root dir existing all_files pname. Inl (ExternalError ''xcode'')),
      generate_top_level_makefile = (\<lambda>w root existing. Inr (''new'' @ [CHR 0x0A])),
      generate_assets_makefile_ext = (\<lambda>w root path existing manifests explicit.
         Inr [(path, ''assets''), (''src/assets/.asset_manifest_public.json'', ''[]'')]),
      generate_meta_makefile_ext = (\<lambda>w root existing.
         Inr [(''src/meta/Makefile'', ''meta''),
              (''src/meta/.meta_manifest_public.json'', ''[1]''),
              (''src/meta/.meta_manifest_private.json'', ''[2]'')]),
      generate_app_module_ext = (\<lambda>w root names existing. Inr existing),
      resources_makefile_run = (\<lambda>w root existing pname. Inr existing),
      feature_set_names = (\<lambda>w root. Inr [''base'']),
      visual_studio_project_text = (\<lambda>w s fname existing. Inr existing),
      visual_studio_filters_text = (\<lambda>project. Inr project),
      cmake_file_text = (\<lambda>w s existing. Inr existing)\<rparr>"

definition C0 :: checks where
  "C0 =
     \<lparr>check_makefiles = (\<lambda>w s. Inr s), check_python_files = (\<lambda>w s. Inr s),
      check_sync_states = (\<lambda>w s. Inr s), check_misc = (\<lambda>w s. Inr s),
      check_source_files = (\<lambda>w s. add_line_correction ''a.cc'' 0 ''good'' True s),
      check_headers = (\<lambda>w s. Inr s)\<rparr>"



subsection \<open>Notions used to state the properties\<close>

text \<open>
  A correction can be carried out in a world when its file can be read and its line number
  is an index into the lines of the file; \<open>current_line\<close> is then the line it names.
\<close>

definition applicable :: "world \<Rightarrow> string \<Rightarrow> string \<times> LineChange \<Rightarrow> bool" where
  "applicable w root change \<longleftrightarrow>
     \<not> isdir w (os_path_join root (fst change))
     \<and> (case files w (os_path_join root (fst change)) of
          None \<Rightarrow> False
        | Some t \<Rightarrow> py_index (length (splitlines t)) (line_number (snd change)) \<noteq> None)"

definition current_line :: "world \<Rightarrow> string \<Rightarrow> string \<times> LineChange \<Rightarrow> string" where
  "current_line w root change =
     (case files w (os_path_join root (fst change)) of
        None \<Rightarrow> []
      | Some t \<Rightarrow>
          (case py_index (length (splitlines t)) (line_number (snd change)) of
             None \<Rightarrow> []
           | Some k \<Rightarrow> splitlines t ! k))"





text \<open>
  \<open>grows s s'\<close>: the updater \<open>s'\<close> is \<open>s\<close> but for its cache, which has at least the keys
  of the cache of \<open>s\<close>, and for \<open>render_calls\<close>.
\<close>

definition grows :: "updater \<Rightarrow> updater \<Rightarrow> bool" where
  "grows s s' \<longleftrightarrow>
     s'\<lparr>generated_files := [], render_calls := []\<rparr>
       = s\<lparr>generated_files := [], render_calls := []\<rparr>
     \<and> set (map fst (generated_files s)) \<subseteq> set (map fst (generated_files s'))"

text \<open>
  An updater with an asset manifest, the two Makefiles behind it and the meta manifests
  queued, each with input data; the same updater after \<^verbatim>\<open>generate_file\<close> for the asset
  manifest, and as \<^verbatim>\<open>run\<close> leaves it when it enters the two passes.
\<close>

definition nested_updater :: updater where
  "nested_updater =
     updater0\<lparr>enqueued_updates :=
       [(''src/assets/.asset_manifest_public.json'', Some ''m''),
        (''src/assets/Makefile'', Some ''a''),
        (''src/meta/.meta_manifest_public.json'', Some ''p''),
        (''src/meta/.meta_manifest_private.json'', Some ''q''),
        (''src/meta/Makefile'', Some ''x'')]\<rparr>"

definition nested_done :: updater where
  "nested_done =
     nested_updater\<lparr>can_generate_files := True,
       generated_files :=
         [(''src/meta/Makefile'', ''meta''),
          (''src/meta/.meta_manifest_public.json'', ''[1]''),
          (''src/meta/.meta_manifest_private.json'', ''[2]''),
          (''src/assets/Makefile'', ''assets''),
          (''src/assets/.asset_manifest_public.json'', ''[]'')],
       render_calls :=
         [''src/assets/.asset_manifest_public.json'', ''src/assets/Makefile'',
          ''src/meta/.meta_manifest_public.json'', ''src/meta/Makefile'']\<rparr>"

definition nested_locked :: updater where
  "nested_locked =
     nested_done\<lparr>can_generate_files := False,
       source_files := Some [''/a.cc'', ''/base/b.mm''],
       header_files := Some [''/a.h'', ''/base/b.h'']\<rparr>"

text \<open>An environment in which the project is not public and has no local configuration.\<close>

definition E0 :: env where
  "E0 = \<lparr>abspath = (\<lambda>p. p),
          getprojectconfig = (\<lambda>w root. Inr (map_of [(''public'', PyBool False)])),
          getlocalconfig = (\<lambda>w root. Inr Map.empty)\<rparr>"

section \<open>Properties\<close>

subsection \<open>project\_centric\_path\<close>

text \<open>
  C10.  For every project root \<open>r\<close> and path \<open>p\<close>: the result is \<open>'.'\<close> when the absolute
  form of \<open>p\<close> equals \<open>r\<close>; it is the rest \<open>t\<close> of the absolute form when that form is
  \<open>r\<close>, a slash, and \<open>t\<close>; and a \<^verbatim>\<open>RuntimeError\<close> is raised for every other path.
\<close>

theorem project_centric_path_cases:
  "(absolute p = r \<longrightarrow> project_centric_path absolute r p = Inr ''.'')
   \<and> (\<forall>t. absolute p = r @ ''/'' @ t \<longrightarrow> project_centric_path absolute r p = Inr t)
   \<and> (absolute p \<noteq> r \<and> \<not> prefix (r @ ''/'') (absolute p)
        \<longrightarrow> (\<exists>m. project_centric_path absolute r p = Inl (RuntimeError m)))"
  by (auto simp add: project_centric_path_def Let_def)

theorem project_centric_path_cases_witness:
  "project_centric_path (\<lambda>p. p) ''/proj'' ''/proj'' = Inr ''.''
   \<and> project_centric_path (\<lambda>p. p) ''/proj'' ''/proj/src/a.cc'' = Inr ''src/a.cc''
   \<and> (\<exists>m. project_centric_path (\<lambda>p. p) ''/proj'' ''/project/a.cc'' = Inl (RuntimeError m))"
proof -
  have a: "project_centric_path (\<lambda>p. p) ''/proj'' ''/proj'' = Inr ''.''"
    using project_centric_path_cases [of "\<lambda>p. p" "''/proj''" "''/proj''"] by simp
  have b: "project_centric_path (\<lambda>p. p) ''/proj'' ''/proj/src/a.cc'' = Inr ''src/a.cc''"
    using project_centric_path_cases [of "\<lambda>p. p" "''/proj/src/a.cc''" "''/proj''"] by simp
  have c: "\<exists>m. project_centric_path (\<lambda>p. p) ''/proj'' ''/project/a.cc'' = Inl (RuntimeError m)"
    using project_centric_path_cases [of "\<lambda>p. p" "''/project/a.cc''" "''/proj''"] by simp
  from a b c show ?thesis by blast
qed

subsection \<open>Helper facts about the world\<close>

lemma fold_print: "fold print ms w = w\<lparr>stdout := stdout w @ ms\<rparr>"
  by (induction ms arbitrary: w) (simp_all add: print_def)

lemma read_orig_file: "\<not> isdir w p \<Longrightarrow> read_orig w p = Inr (files w p)"
  by (simp add: read_orig_def path_exists_def read_text_def split: option.splits)

subsection \<open>The line-correction pass with manual entries\<close>

text \<open>
  C1.  If the ledger holds an entry that cannot be applied automatically, then in every
  mode (whatever \<^verbatim>\<open>check\<close> and \<^verbatim>\<open>fix\<close> are, and whatever auto-fixable entries the ledger
  also holds) the line-correction pass raises \<^verbatim>\<open>CleanError\<close>; it prints the heading and
  then one line for every manual entry, giving the file, the line number plus one and the
  expected text; and it leaves the world as it was but for these prints, so no file is
  written.
\<close>

theorem apply_line_changes_manual:
  assumes "(fname, entries) \<in> set (line_corrections s)" and "entry \<in> set entries"
    and "\<not> can_auto_update entry"
  shows "apply_line_changes c (s\<lparr>check := ck, fix_mode := fx\<rparr>) w =
           (Some (CleanError []),
            w\<lparr>stdout := stdout w
                 @ (RED c @ ''Found erroneous lines requiring manual correction:'' @ RST c)
                 # map (manual_message c) (manual_changes s)\<rparr>)
         \<and> (fname, entry) \<in> set (manual_changes s)
         \<and> manual_message c (fname, entry) =
             RED c @ fname @ '':'' @ str_of_int (line_number entry + 1)
               @ '': Expected line to be:'' @ [CHR 0x0A] @ ''  '' @ expected entry @ RST c"
proof -
  from assms have "(fname, entry) \<in> set (manual_changes s)"
    by (auto simp add: manual_changes_def all_changes_def)
  moreover have "manual_changes (s\<lparr>check := ck, fix_mode := fx\<rparr>) = manual_changes s"
    by (simp add: manual_changes_def all_changes_def)
  ultimately show ?thesis
    by (auto simp add: apply_line_changes_def fold_print print_def manual_message_def)
qed

theorem apply_line_changes_manual_witness:
  "apply_line_changes clr0
     (updater0\<lparr>line_corrections := [(''a.cc'', [manual_entry, auto_entry])],
               check := False, fix_mode := True\<rparr>) world0 =
     (Some (CleanError []),
      world0\<lparr>stdout :=
        [''<red>Found erroneous lines requiring manual correction:<rst>'',
         ''<red>a.cc:2: Expected line to be:'' @ [CHR 0x0A] @ ''  second<rst>'']\<rparr>)"
proof -
  let ?s = "updater0\<lparr>line_corrections := [(''a.cc'', [manual_entry, auto_entry])]\<rparr>"
  have m: "manual_changes ?s = [(''a.cc'', manual_entry)]"
    by (simp add: manual_changes_def all_changes_def manual_entry_def auto_entry_def)
  have t: "manual_message clr0 (''a.cc'', manual_entry)
             = ''<red>a.cc:2: Expected line to be:'' @ [CHR 0x0A] @ ''  second<rst>''"
    by (simp add: manual_message_def clr0_def manual_entry_def str_of_int_def str_of_nat.simps)
  have "apply_line_changes clr0 (?s\<lparr>check := False, fix_mode := True\<rparr>) world0 =
           (Some (CleanError []),
            world0\<lparr>stdout := stdout world0
                 @ (RED clr0 @ ''Found erroneous lines requiring manual correction:'' @ RST clr0)
                 # map (manual_message clr0) (manual_changes ?s)\<rparr>)"
    using apply_line_changes_manual
            [where fname = "''a.cc''" and entries = "[manual_entry, auto_entry]" and s = ?s
               and entry = manual_entry and c = clr0 and ck = False and fx = True and w = world0]
    by (simp add: manual_entry_def)
  then show ?thesis
    by (simp add: m t) (simp add: clr0_def world0_def)
qed

subsection \<open>The whole-file pass\<close>





lemma apply_file_loop_prefix_match:
  assumes "\<forall>(f, cd) \<in> set pre. files w (os_path_join (projroot s) f) = Some (replace_crlf cd)
             \<and> \<not> isdir w (os_path_join (projroot s) f)"
  shows "apply_file_loop c s (pre @ rest) n w = apply_file_loop c s rest (n + length pre) w"
  using assms by (induction pre arbitrary: n) (auto simp add: read_orig_file)

lemma apply_file_loop_check_mismatch:
  assumes "check s" and "\<not> isdir w (os_path_join (projroot s) fname)"
    and "files w (os_path_join (projroot s) fname) \<noteq> Some (replace_crlf fcode)"
  shows "apply_file_loop c s ((fname, fcode) # post) n w =
           (Inl (CleanError (out_of_date_message fname (os_path_join (projroot s) fname)
                   (errfile_of s))),
            write_text (errfile_of s) (replace_crlf fcode)
              (makedirs (os_path_dirname (errfile_of s)) w))"
  using assms by (simp add: read_orig_file Let_def)

lemma apply_file_loop_check_frame:
  assumes "check s"
  shows "(\<forall>q. q \<noteq> errfile_of s \<longrightarrow> files (snd (apply_file_loop c s gen n w)) q = files w q)
         \<and> (written (snd (apply_file_loop c s gen n w)) = written w
            \<or> written (snd (apply_file_loop c s gen n w)) = written w @ [errfile_of s])"
proof (induction gen arbitrary: n)
  case Nil
  show ?case by simp
next
  case (Cons a gen)
  obtain fname fcode where a: "a = (fname, fcode)" by (cases a)
  show ?case
  proof (cases "read_orig w (os_path_join (projroot s) fname)")
    case (Inl e)
    then show ?thesis by (simp add: a)
  next
    case (Inr orig)
    show ?thesis
    proof (cases "orig = Some (replace_crlf fcode)")
      case True
      with Inr have "apply_file_loop c s (a # gen) n w = apply_file_loop c s gen (n + 1) w"
        by (simp add: a)
      with Cons.IH [of "n + 1"] show ?thesis by simp
    next
      case False
      with Inr assms show ?thesis
        by (simp add: a Let_def write_text_def makedirs_def)
    qed
  qed
qed

lemma out_of_date_message_names:
  "sublist path1 (out_of_date_message fname path1 path2)"
  "sublist path2 (out_of_date_message fname path1 path2)"
proof -
  let ?a = "''Found out-of-date project file: '' @ [CHR 0x27] @ fname @ [CHR 0x27] @ ''.''
       @ [CHR 0x0A] @ ''To see what would change, run:'' @ [CHR 0x0A]
       @ ''  diff '' @ [CHR 0x27]"
  have "out_of_date_message fname path1 path2
          = ?a @ path1 @ ([CHR 0x27] @ '' '' @ [CHR 0x27] @ path2 @ [CHR 0x27] @ [CHR 0x0A])"
    by (simp add: out_of_date_message_def)
  then show "sublist path1 (out_of_date_message fname path1 path2)"
    unfolding sublist_def by blast
  have "out_of_date_message fname path1 path2
          = (?a @ path1 @ [CHR 0x27] @ '' '' @ [CHR 0x27]) @ path2 @ ([CHR 0x27] @ [CHR 0x0A])"
    by (simp add: out_of_date_message_def)
  then show "sublist path2 (out_of_date_message fname path1 path2)"
    unfolding sublist_def by blast
qed

text \<open>
  C5, as amended.  In check mode, let \<open>fname\<close> be the first artifact of the cache whose text,
  with every CR LF replaced by LF, is not the text of the file at its path (or whose file
  is absent).  Then the whole-file pass raises \<^verbatim>\<open>CleanError\<close> with a message that names the
  real path and the scratch path; it makes the directory of the scratch path and writes
  there the text of the artifact with every CR LF replaced by LF; it prints nothing; and
  every path other than the scratch path keeps its text.
\<close>

theorem apply_file_changes_check_mode:
  assumes "check s"
    and "generated_files s = pre @ (fname, fcode) # post"
    and "\<forall>(f, cd) \<in> set pre. files w (os_path_join (projroot s) f) = Some (replace_crlf cd)
           \<and> \<not> isdir w (os_path_join (projroot s) f)"
    and "\<not> isdir w (os_path_join (projroot s) fname)"
    and "files w (os_path_join (projroot s) fname) \<noteq> Some (replace_crlf fcode)"
  shows "apply_file_changes c s w =
           (Some (CleanError (out_of_date_message fname (os_path_join (projroot s) fname)
                    (errfile_of s))),
            write_text (errfile_of s) (replace_crlf fcode)
              (makedirs (os_path_dirname (errfile_of s)) w))
    \<and> sublist (os_path_join (projroot s) fname)
        (out_of_date_message fname (os_path_join (projroot s) fname) (errfile_of s))
    \<and> sublist (errfile_of s)
        (out_of_date_message fname (os_path_join (projroot s) fname) (errfile_of s))
    \<and> written (snd (apply_file_changes c s w)) = written w @ [errfile_of s]
    \<and> stdout (snd (apply_file_changes c s w)) = stdout w
    \<and> (\<forall>q. q \<noteq> errfile_of s \<longrightarrow> files (snd (apply_file_changes c s w)) q = files w q)"
proof -
  have "apply_file_loop c s (generated_files s) 0 w =
          apply_file_loop c s ((fname, fcode) # post) (0 + length pre) w"
    unfolding assms(2) using assms(3) by (rule apply_file_loop_prefix_match)
  also have "\<dots> = (Inl (CleanError (out_of_date_message fname (os_path_join (projroot s) fname)
                   (errfile_of s))),
            write_text (errfile_of s) (replace_crlf fcode)
              (makedirs (os_path_dirname (errfile_of s)) w))"
    using assms(1,4,5) by (rule apply_file_loop_check_mismatch)
  finally have "apply_file_changes c s w =
           (Some (CleanError (out_of_date_message fname (os_path_join (projroot s) fname)
                    (errfile_of s))),
            write_text (errfile_of s) (replace_crlf fcode)
              (makedirs (os_path_dirname (errfile_of s)) w))"
    by (simp add: apply_file_changes_def)
  then show ?thesis
    by (simp add: out_of_date_message_names write_text_def makedirs_def)
qed

theorem apply_file_changes_check_mode_witness:
  "apply_file_changes clr0
     (updater0\<lparr>check := True,
        generated_files := [(''Makefile'', ''old'' @ [CHR 0x0D, CHR 0x0A]),
                            (''proj.vcxproj'', ''x'' @ [CHR 0x0D, CHR 0x0A])]\<rparr>) world0
   = (Some (CleanError (out_of_date_message ''proj.vcxproj'' ''/p/proj.vcxproj''
              ''/p/build/project_check_error_file'')),
      world0\<lparr>isdir := (isdir world0)(''/p/build'' := True),
             files := (files world0)(''/p/build/project_check_error_file'' \<mapsto> ''x'' @ [CHR 0x0A]),
             written := [''/p/build/project_check_error_file'']\<rparr>)"
proof -
  let ?s = "updater0\<lparr>check := True,
        generated_files := [(''Makefile'', ''old'' @ [CHR 0x0D, CHR 0x0A]),
                            (''proj.vcxproj'', ''x'' @ [CHR 0x0D, CHR 0x0A])]\<rparr>"
  have r: "projroot updater0 = ''/p''"
    by (simp add: updater0_def)
  have j: "os_path_join ''/p'' ''Makefile'' = ''/p/Makefile''"
    "os_path_join ''/p'' ''proj.vcxproj'' = ''/p/proj.vcxproj''"
    "os_path_join ''/p'' ''build/project_check_error_file'' = ''/p/build/project_check_error_file''"
    "os_path_dirname ''/p/build/project_check_error_file'' = ''/p/build''"
    by (simp_all add: os_path_join_def os_path_dirname_def suffix_to_prefix)
  have a1: "check ?s" by simp
  have a2: "generated_files ?s = [(''Makefile'', ''old'' @ [CHR 0x0D, CHR 0x0A])]
              @ (''proj.vcxproj'', ''x'' @ [CHR 0x0D, CHR 0x0A]) # []"
    by simp
  have a3: "\<forall>(f, cd) \<in> set [(''Makefile'', ''old'' @ [CHR 0x0D, CHR 0x0A])].
              files world0 (os_path_join (projroot ?s) f) = Some (replace_crlf cd)
              \<and> \<not> isdir world0 (os_path_join (projroot ?s) f)"
    by (simp add: r j world0_def)
  have a4: "\<not> isdir world0 (os_path_join (projroot ?s) ''proj.vcxproj'')"
    by (simp add: r j world0_def)
  have a5: "files world0 (os_path_join (projroot ?s) ''proj.vcxproj'')
              \<noteq> Some (replace_crlf (''x'' @ [CHR 0x0D, CHR 0x0A]))"
    by (simp add: r j world0_def)
  from apply_file_changes_check_mode [OF a1 a2 a3 a4 a5, where c = clr0]
  have "apply_file_changes clr0 ?s world0 =
          (Some (CleanError (out_of_date_message ''proj.vcxproj'' ''/p/proj.vcxproj''
              ''/p/build/project_check_error_file'')),
           write_text ''/p/build/project_check_error_file'' (''x'' @ [CHR 0x0A])
             (makedirs ''/p/build'' world0))"
    by (simp add: r j errfile_of_def)
  then show ?thesis
    by (simp add: write_text_def makedirs_def world0_def)
qed

text \<open>
  Against C5 as it is written: the artifact is generated with CR LF line ends and the
  scratch file receives it with LF line ends, so what is written is not the generated
  text; and an artifact whose own path is the scratch path has its file replaced.
\<close>

theorem check_mode_scratch_counterexample:
  "files (snd (apply_file_changes clr0
       (updater0\<lparr>check := True,
          generated_files := [(''proj.vcxproj'', ''x'' @ [CHR 0x0D, CHR 0x0A])]\<rparr>) world0))
     ''/p/build/project_check_error_file'' = Some (''x'' @ [CHR 0x0A])
   \<and> files (snd (apply_file_changes clr0
       (updater0\<lparr>check := True,
          generated_files := [(''proj.vcxproj'', ''x'' @ [CHR 0x0D, CHR 0x0A])]\<rparr>) world0))
     ''/p/build/project_check_error_file'' \<noteq> Some (''x'' @ [CHR 0x0D, CHR 0x0A])
   \<and> files (snd (apply_file_changes clr0
       (updater0\<lparr>check := True,
          generated_files := [(''build/project_check_error_file'', ''new'')]\<rparr>)
       (world0\<lparr>files := (files world0)(''/p/build/project_check_error_file'' \<mapsto> ''old'')\<rparr>)))
     ''/p/build/project_check_error_file'' = Some ''new''"
  by code_simp

subsection \<open>A run with pending auto-fixable corrections\<close>


lemma applicable_stdout [simp]: "applicable (w\<lparr>stdout := x\<rparr>) root ch = applicable w root ch"
  by (simp add: applicable_def)

lemma current_line_stdout [simp]: "current_line (w\<lparr>stdout := x\<rparr>) root ch = current_line w root ch"
  by (simp add: current_line_def)





subsection \<open>The line-correction pass in fix mode\<close>

lemma is_linebreak_LF [simp]: "is_linebreak (CHR 0x0A)" "is_linebreak (CHR 0x0D)"
  by (simp_all add: is_linebreak_def)

















subsection \<open>Generating a file twice\<close>

lemma grows_refl [simp]: "grows s s"
  by (simp add: grows_def)

lemma grows_trans: "grows a b \<Longrightarrow> grows b c \<Longrightarrow> grows a c"
  by (auto simp add: grows_def)

lemma grows_store [simp]: "grows s (store p t s)"
  by (auto simp add: grows_def store_def AList.dom_update)

lemma grows_store_all [simp]: "grows s (store_all outs s)"
proof (induction outs arbitrary: s)
  case Nil
  show ?case by (simp add: store_all_def)
next
  case (Cons a outs)
  obtain p t where a: "a = (p, t)" by (cases a)
  have "store_all (a # outs) s = store_all outs (store p t s)"
    by (simp add: store_all_def a)
  with Cons [of "store p t s"] grows_store [of s p t] show ?case
    by (metis grows_trans)
qed

lemma grows_logged [simp]: "grows s (s\<lparr>render_calls := x\<rparr>)"
  by (simp add: grows_def)

lemma grows_fields:
  assumes "grows s s'"
  shows "can_generate_files s' = can_generate_files s" "enqueued_updates s' = enqueued_updates s"
    "projroot s' = projroot s" "public s' = public s" "line_corrections s' = line_corrections s"
    "check s' = check s" "fix_mode s' = fix_mode s"
proof -
  from assms have e: "s'\<lparr>generated_files := [], render_calls := []\<rparr>
      = s\<lparr>generated_files := [], render_calls := []\<rparr>" by (simp add: grows_def)
  from arg_cong [OF e, of can_generate_files] show "can_generate_files s' = can_generate_files s" by simp
  from arg_cong [OF e, of enqueued_updates] show "enqueued_updates s' = enqueued_updates s" by simp
  from arg_cong [OF e, of projroot] show "projroot s' = projroot s" by simp
  from arg_cong [OF e, of public] show "public s' = public s" by simp
  from arg_cong [OF e, of line_corrections] show "line_corrections s' = line_corrections s" by simp
  from arg_cong [OF e, of check] show "check s' = check s" by simp
  from arg_cong [OF e, of fix_mode] show "fix_mode s' = fix_mode s" by simp
qed

lemma leaf_grows:
  "generate_xcode_project R w s p ex = Inr s' \<Longrightarrow> grows s s'"
  "generate_visual_studio_project R w s p ex = Inr s' \<Longrightarrow> grows s s'"
  "generate_cmake_file R w s p ex = Inr s' \<Longrightarrow> grows s s'"
  "generate_top_level_makefile_file R w s p ex = Inr s' \<Longrightarrow> grows s s'"
  "generate_passthrough_file s p ex = Inr s' \<Longrightarrow> grows s s'"
  "generate_resources_makefile R w s p ex = Inr s' \<Longrightarrow> grows s s'"
  "generate_meta_makefile R w s ex = Inr s' \<Longrightarrow> grows s s'"
  "generate_app_module R w s p ex = Inr s' \<Longrightarrow> grows s s'"
  by (auto simp add: generate_xcode_project_def generate_visual_studio_project_def
        generate_cmake_file_def generate_top_level_makefile_file_def generate_passthrough_file_def
        generate_resources_makefile_def generate_meta_makefile_def generate_app_module_def
        Let_def split: option.splits sum.splits if_splits)

lemma generate_grows:
  "generate_file' R w s path = Inr (t, s') \<Longrightarrow> grows s s'"
  "generate_visual_studio_project_filters R w s fname ex = Inr s' \<Longrightarrow> grows s s'"
  "generate_assets_makefile R w s path2 ex2 = Inr s' \<Longrightarrow> grows s s'"
proof (induction R w s path and R w s fname ex and R w s path2 ex2 arbitrary: t s' and s' and s'
    rule: generate_file'_generate_visual_studio_project_filters_generate_assets_makefile.induct)
  case (1 R w s path)
  let ?s0 = "s\<lparr>render_calls := render_calls s @ [path]\<rparr>"
  have g0: "grows s ?s0" by simp
  note eq = generate_file'.simps [of R w s path]
  from "1.prems" have cg: "can_generate_files s"
    by (subst (asm) eq) (auto split: if_splits)
  show ?case
  proof (cases "path \<in> set (map fst (generated_files s))")
    case True
    with "1.prems" cg have "s' = s"
      by (subst (asm) eq) (auto split: if_splits option.splits)
    then show ?thesis by simp
  next
    case False
    with "1.prems" cg obtain ed where ed: "existing_data_of w s path = Inr ed"
      by (subst (asm) eq) (auto split: if_splits sum.splits)
    from cg have nn: "\<not> \<not> can_generate_files s" by simp
    note ih = "1.IH" [OF nn False ed refl]
    from False have nc: "path \<notin> fst ` set (generated_files s)" by simp
    note known = cg nc ed Let_def
    note pr = "1.prems" [unfolded eq]
    consider
        (xcode) "suffix ''/project.pbxproj'' path"
      | (filters) "\<not> suffix ''/project.pbxproj'' path" "suffix ''.vcxproj.filters'' path"
      | (vs) "\<not> suffix ''/project.pbxproj'' path" "\<not> suffix ''.vcxproj.filters'' path"
          "suffix ''.vcxproj'' path"
      | (cmake) "\<not> suffix ''/project.pbxproj'' path" "\<not> suffix ''.vcxproj.filters'' path"
          "\<not> suffix ''.vcxproj'' path" "suffix ''CMakeLists.txt'' path"
      | (rest) "\<not> suffix ''/project.pbxproj'' path" "\<not> suffix ''.vcxproj.filters'' path"
          "\<not> suffix ''.vcxproj'' path" "\<not> suffix ''CMakeLists.txt'' path"
      by blast
    then have "grows ?s0 s'"
    proof cases
      case xcode
      with pr have "generate_xcode_project R w ?s0 path ed = Inr s'"
        by (simp add: known split: sum.splits option.splits)
      then show ?thesis by (rule leaf_grows)
    next
      case filters
      with pr have "generate_visual_studio_project_filters R w ?s0 path ed = Inr s'"
        by (simp add: known split: sum.splits option.splits)
      with ih(1) filters show ?thesis by blast
    next
      case vs
      with pr have "generate_visual_studio_project R w ?s0 path ed = Inr s'"
        by (simp add: known split: sum.splits option.splits)
      then show ?thesis by (rule leaf_grows)
    next
      case cmake
      with pr have "generate_cmake_file R w ?s0 path ed = Inr s'"
        by (simp add: known split: sum.splits option.splits)
      then show ?thesis by (rule leaf_grows)
    next
      case rest
      note sfx = rest
      consider
          (top) "path = ''Makefile''"
        | (assets) "path \<noteq> ''Makefile''" "path = ''src/assets/Makefile''"
        | (apub) "path \<noteq> ''Makefile''" "path \<noteq> ''src/assets/Makefile''"
            "prefix ''src/assets/.asset_manifest_public'' path"
        | (apriv) "path \<noteq> ''Makefile''" "path \<noteq> ''src/assets/Makefile''"
            "\<not> prefix ''src/assets/.asset_manifest_public'' path"
            "prefix ''src/assets/.asset_manifest_private'' path"
        | (rest2) "path \<noteq> ''Makefile''" "path \<noteq> ''src/assets/Makefile''"
            "\<not> prefix ''src/assets/.asset_manifest_public'' path"
            "\<not> prefix ''src/assets/.asset_manifest_private'' path"
        by blast
      then show ?thesis
      proof cases
        case top
        then have e: "(path = ''Makefile'') = True" by simp
        from pr sfx have "generate_top_level_makefile_file R w ?s0 path ed = Inr s'"
          by (simp add: known e split: sum.splits option.splits)
        then show ?thesis by (rule leaf_grows)
      next
        case assets
        then have e: "(path = ''src/assets/Makefile'') = True" by simp
        from pr sfx assets(1) have "generate_assets_makefile R w ?s0 path ed = Inr s'"
          by (simp add: known e split: sum.splits option.splits)
        with ih(2) sfx assets show ?thesis by blast
      next
        case apub
        with pr sfx obtain tx where "generate_file' R w ?s0 ''src/assets/Makefile'' = Inr (tx, s')"
          by (simp add: known split: sum.splits option.splits prod.splits)
        with ih(3) sfx apub show ?thesis by blast
      next
        case apriv
        show ?thesis
        proof (cases "public s")
          case True
          with pr sfx apriv have "generate_passthrough_file ?s0 path ed = Inr s'"
            by (simp add: known split: sum.splits option.splits)
          then show ?thesis by (rule leaf_grows)
        next
          case False
          with pr sfx apriv obtain tx where
            "generate_file' R w ?s0 ''src/assets/Makefile'' = Inr (tx, s')"
            by (simp add: known split: sum.splits option.splits prod.splits)
          moreover have "\<not> public ?s0" using False by simp
          ultimately show ?thesis using ih(4) sfx apriv by blast
        qed
      next
        case rest2
        note pfx = rest2
        consider
            (res) "path = ''src/resources/Makefile''"
          | (meta) "path \<noteq> ''src/resources/Makefile''" "path = ''src/meta/Makefile''"
          | (app) "path \<noteq> ''src/resources/Makefile''" "path \<noteq> ''src/meta/Makefile''"
              "path = ''src/assets/ba_data/python/babase/_app.py''"
          | (mm) "path \<noteq> ''src/resources/Makefile''" "path \<noteq> ''src/meta/Makefile''"
              "path \<noteq> ''src/assets/ba_data/python/babase/_app.py''"
              "prefix ''src/meta/.meta_manifest_'' path"
          | (none) "path \<noteq> ''src/resources/Makefile''" "path \<noteq> ''src/meta/Makefile''"
              "path \<noteq> ''src/assets/ba_data/python/babase/_app.py''"
              "\<not> prefix ''src/meta/.meta_manifest_'' path"
          by blast
        then show ?thesis
        proof cases
          case res
          then have e: "(path = ''src/resources/Makefile'') = True" by simp
          from pr sfx pfx have "generate_resources_makefile R w ?s0 path ed = Inr s'"
            by (simp add: known e split: sum.splits option.splits)
          then show ?thesis by (rule leaf_grows)
        next
          case meta
          then have e: "(path = ''src/meta/Makefile'') = True" by simp
          from pr sfx pfx meta(1) have "generate_meta_makefile R w ?s0 ed = Inr s'"
            by (simp add: known e split: sum.splits option.splits)
          then show ?thesis by (rule leaf_grows)
        next
          case app
          then have e: "(path = ''src/assets/ba_data/python/babase/_app.py'') = True" by simp
          from pr sfx pfx app(1,2) have "generate_app_module R w ?s0 path ed = Inr s'"
            by (simp add: known e split: sum.splits option.splits)
          then show ?thesis by (rule leaf_grows)
        next
          case mm
          with pr sfx pfx obtain tx where
            "generate_file' R w ?s0 ''src/meta/Makefile'' = Inr (tx, s')"
            by (simp add: known split: sum.splits option.splits prod.splits if_splits)
          with ih(5) sfx pfx mm show ?thesis by blast
        next
          case none
          with pr sfx pfx show ?thesis
            by (simp add: known split: sum.splits option.splits)
        qed
      qed
    qed
    with g0 show ?thesis by (rule grows_trans)
  qed
next
  case (2 R w s fname ex)
  note eq = generate_visual_studio_project_filters.simps [of R w s fname ex]
  from "2.prems" have sf: "suffix ''.filters'' fname"
    by (subst (asm) eq) (auto split: if_splits)
  from sf have nn: "\<not> \<not> suffix ''.filters'' fname" by simp
  from "2.prems" sf obtain project s1 tx where
    g: "generate_file' R w s (removesuffix ''.filters'' fname) = Inr (project, s1)"
    and s': "s' = store fname tx s1"
    by (subst (asm) eq) (auto split: sum.splits prod.splits)
  from "2.IH" [OF nn g] have "grows s s1" .
  moreover have "grows s1 s'" unfolding s' by simp
  ultimately show ?case by (rule grows_trans)
next
  case (3 R w s path ex)
  note eq = generate_assets_makefile.simps [of R w s path ex]
  from "3.prems" obtain m1 s1 m2 s2 outs where
    g1: "generate_file' R w s ''src/meta/.meta_manifest_public.json'' = Inr (m1, s1)"
    and g2: "generate_file' R w s1 ''src/meta/.meta_manifest_private.json'' = Inr (m2, s2)"
    and s': "s' = store_all outs s2"
    by (subst (asm) eq) (auto simp add: Let_def split: sum.splits prod.splits)
  from "3.IH"(1) [OF g1] have a: "grows s s1" .
  from "3.IH"(2) [OF g1 refl g2] have b: "grows s1 s2" .
  have "grows s2 s'" unfolding s' by simp
  with a b show ?case by (metis grows_trans)
qed



lemma generate_all_grows: "generate_all R w s paths = Inr s' \<Longrightarrow> grows s s'"
proof (induction paths arbitrary: s)
  case Nil
  then show ?case by simp
next
  case (Cons p paths)
  then obtain t s1 where g: "generate_file' R w s p = Inr (t, s1)"
    and r: "generate_all R w s1 paths = Inr s'"
    by (auto split: sum.splits prod.splits)
  from g have "grows s s1" by (rule generate_grows)
  moreover from r have "grows s1 s'" by (rule Cons.IH)
  ultimately show ?case by (rule grows_trans)
qed



subsection \<open>The queue during a run\<close>

lemma dict_eq_map_of: "dict_eq a b \<longleftrightarrow> map_of a = map_of b"
proof
  assume d: "dict_eq a b"
  show "map_of a = map_of b"
  proof
    fix k
    show "map_of a k = map_of b k"
    proof (cases "k \<in> set (map fst a) \<union> set (map fst b)")
      case True
      with d show ?thesis by (simp add: dict_eq_def)
    next
      case False
      then have "map_of a k = None" "map_of b k = None"
        by (simp_all add: map_of_eq_None_iff)
      then show ?thesis by simp
    qed
  qed
next
  assume "map_of a = map_of b"
  then show "dict_eq a b" by (simp add: dict_eq_def)
qed

lemma prepare_to_generate_enqueued:
  "prepare_to_generate w s = Inr s1 \<Longrightarrow> enqueued_updates s1 = enqueued_updates s"
  by (auto simp add: prepare_to_generate_def find_sources_and_headers_def Let_def
        split: if_splits)

text \<open>
  C8.  Let a run reach its two passes, with the updater \<open>s'\<close>.  Then the queue of \<open>s'\<close> is,
  as a mapping, the queue at the snapshot, which is the queue with which the run started.
  Preparing and the generation loop leave the queue as it is, entry by entry: what
  \<^verbatim>\<open>generate_file\<close> changes, nested calls included, is the cache, which keeps the keys it
  had, and \<open>render_calls\<close>.  The checks are not part of this file; the run goes on after
  them only if the queue is still the snapshot.
\<close>

theorem run_to_apply_keeps_queue:
  assumes "run_to_apply R C w s = Inr s'"
  shows "map_of (enqueued_updates s') = map_of (enqueued_updates s)
    \<and> (\<exists>s1 s2. prepare_to_generate w s = Inr s1
          \<and> enqueued_updates s1 = enqueued_updates s
          \<and> generate_all R w s1 (map fst (enqueued_updates s1)) = Inr s2
          \<and> enqueued_updates s2 = enqueued_updates s1
          \<and> set (map fst (generated_files s1)) \<subseteq> set (map fst (generated_files s2))
          \<and> dict_eq (enqueued_updates s1) (enqueued_updates s'))"
proof -
  from assms obtain s1 where p: "prepare_to_generate w s = Inr s1"
    by (auto simp add: run_to_apply_def split: sum.splits)
  from assms p obtain s2 where g: "generate_all R w s1 (map fst (enqueued_updates s1)) = Inr s2"
    by (auto simp add: run_to_apply_def Let_def split: sum.splits)
  from assms p g have d: "dict_eq (enqueued_updates s1) (enqueued_updates s')"
    by (auto simp add: run_to_apply_def Let_def split: sum.splits if_splits)
  from p have e1: "enqueued_updates s1 = enqueued_updates s"
    by (rule prepare_to_generate_enqueued)
  from g have gr: "grows s1 s2" by (rule generate_all_grows)
  then have e2: "enqueued_updates s2 = enqueued_updates s1"
    by (rule grows_fields)
  from gr have k: "set (map fst (generated_files s1)) \<subseteq> set (map fst (generated_files s2))"
    by (simp add: grows_def)
  from d e1 have "map_of (enqueued_updates s') = map_of (enqueued_updates s)"
    by (simp add: dict_eq_map_of)
  with p e1 g e2 k d show ?thesis by blast
qed

theorem run_to_apply_keeps_queue_witness:
  "run_to_apply R0 C0 world0 nested_updater = Inr nested_locked
   \<and> map_of (enqueued_updates nested_locked) = map_of (enqueued_updates nested_updater)"
proof -
  have h: "run_to_apply R0 C0 world0 nested_updater = Inr nested_locked"
    by code_simp
  from run_to_apply_keeps_queue [OF h] h show ?thesis by blast
qed

subsection \<open>Construction\<close>

lemma update_fields [simp]:
  "check (enqueue_update p d s) = check s" "fix_mode (enqueue_update p d s) = fix_mode s"
  "public (enqueue_update p d s) = public s"
  by (simp_all add: enqueue_update_def)

lemma update_visual_studio_project_fields [simp]:
  "check (update_visual_studio_project b s) = check s"
  "fix_mode (update_visual_studio_project b s) = fix_mode s"
  "public (update_visual_studio_project b s) = public s"
  by (simp_all add: update_visual_studio_project_def Let_def)

lemma update_visual_studio_projects_fields [simp]:
  "check (update_visual_studio_projects s) = check s"
  "fix_mode (update_visual_studio_projects s) = fix_mode s"
  by (simp_all add: update_visual_studio_projects_def Let_def)

lemma update_cmake_files_result:
  "update_cmake_files w s = (io, r) \<Longrightarrow>
     (r = Inl AssertionError \<or> (\<exists>s'. r = Inr s' \<and> check s' = check s \<and> fix_mode s' = fix_mode s))"
  by (auto simp add: update_cmake_files_def Let_def split: if_splits)

lemma update_xcode_projects_result:
  "update_xcode_projects w s = (io, r) \<Longrightarrow>
     (r = Inl AssertionError \<or> (\<exists>s'. r = Inr s' \<and> check s' = check s \<and> fix_mode s' = fix_mode s))"
  by (auto simp add: update_xcode_projects_def Let_def split: if_splits)

text \<open>
  C7.  With \<^verbatim>\<open>check\<close> and \<^verbatim>\<open>fix\<close> both set the constructor raises the \<^verbatim>\<open>RuntimeError\<close>
  for the two modes and has made no file access.  With at most one of them set it goes on
  to read the project configuration; an exception that it then raises is a failed
  assertion or comes from loading a configuration, and an updater that it returns has the
  two flags as given.
\<close>

theorem init_mode_exclusive:
  "(ck \<and> fx \<longrightarrow>
      init E w root ck fx emp pname
        = ([], Inl (RuntimeError ''fix and check cannot both be enabled'')))
   \<and> (\<not> (ck \<and> fx) \<longrightarrow>
        (\<exists>io. fst (init E w root ck fx emp pname) = ReadProjectConfig root # io)
      \<and> (\<forall>e. snd (init E w root ck fx emp pname) = Inl e \<longrightarrow>
             e = AssertionError \<or> getprojectconfig E w root = Inl e
             \<or> getlocalconfig E w root = Inl e)
      \<and> (\<forall>s. snd (init E w root ck fx emp pname) = Inr s \<longrightarrow> check s = ck \<and> fix_mode s = fx))"
proof (cases "ck \<and> fx")
  case True
  then show ?thesis by (simp add: init_def)
next
  case False
  let ?r = "init E w root ck fx emp pname"
  from False have nb: "(fx \<and> ck) = False" by auto
  show ?thesis
  proof (cases "getprojectconfig E w root")
    case (Inl e)
    with False show ?thesis by (auto simp add: init_def)
  next
    case cfg: (Inr cfg)
    show ?thesis
    proof (cases "case cfg ''public'' of None \<Rightarrow> Some False | Some (PyBool b) \<Rightarrow> Some b
              | Some (PyOther t) \<Rightarrow> None")
      case None
      with False cfg show ?thesis by (auto simp add: init_def)
    next
      case pub: (Some pub)
      show ?thesis
      proof (cases "getlocalconfig E w root")
        case (Inl e)
        with False cfg pub show ?thesis by (auto simp add: init_def)
      next
        case lcfg: (Inr lcfg)
        show ?thesis
        proof (cases emp)
          case True
          with False cfg pub lcfg show ?thesis by (auto simp add: init_def Let_def)
        next
          case ne: False
          define s0 where "s0 = \<lparr>projname = pname, projroot = abspath E root, check = ck, fix_mode = fx,
                   public = pub, source_files = None, header_files = None,
                   enqueued_updates = [], line_corrections = [],
                   can_generate_files = False, generated_files = [],
                   license_line_checks =
                     (case lcfg ''license_line_checks'' of None \<Rightarrow> True | Some v \<Rightarrow> truthy v),
                   run_file_checks = True, render_calls = []\<rparr>"
          define s4 where "s4 = update_top_level_makefile (update_assets_makefile
                       (update_resources_makefile (update_meta_makefile s0)))"
          have s4: "check s4 = ck" "fix_mode s4 = fx"
            by (simp_all add: s4_def s0_def update_top_level_makefile_def
                  update_assets_makefile_def update_resources_makefile_def
                  update_meta_makefile_def)
          obtain io1 r1 where c: "update_cmake_files w s4 = (io1, r1)" by force
          have eq: "?r = (case update_cmake_files w s4 of
              (io1, Inl e) \<Rightarrow> (ReadProjectConfig root # ReadLocalConfig root # io1, Inl e)
            | (io1, Inr s5) \<Rightarrow>
            case update_xcode_projects w (update_visual_studio_projects s5) of
              (io2, Inl e) \<Rightarrow> (ReadProjectConfig root # ReadLocalConfig root # io1 @ io2, Inl e)
            | (io2, Inr s7) \<Rightarrow> (ReadProjectConfig root # ReadLocalConfig root # io1 @ io2,
                                  Inr (update_app_module s7)))"
            using cfg pub lcfg ne
            by (simp add: init_def nb Let_def s4_def s0_def)
          from update_cmake_files_result [OF c] show ?thesis
          proof
            assume "r1 = Inl AssertionError"
            with eq c False show ?thesis by auto
          next
            assume "\<exists>s'. r1 = Inr s' \<and> check s' = check s4 \<and> fix_mode s' = fix_mode s4"
            then obtain s5 where s5: "r1 = Inr s5" "check s5 = ck" "fix_mode s5 = fx"
              using s4 by auto
            obtain io2 r2 where x: "update_xcode_projects w (update_visual_studio_projects s5) = (io2, r2)"
              by force
            from update_xcode_projects_result [OF x] show ?thesis
            proof
              assume "r2 = Inl AssertionError"
              with eq c s5 x False show ?thesis by auto
            next
              assume "\<exists>s'. r2 = Inr s' \<and> check s' = check (update_visual_studio_projects s5)
                        \<and> fix_mode s' = fix_mode (update_visual_studio_projects s5)"
              then obtain s7 where "r2 = Inr s7" "check s7 = ck" "fix_mode s7 = fx"
                using s5 by auto
              with eq c s5 x False show ?thesis
                by (auto simp add: update_app_module_def)
            qed
          qed
        qed
      qed
    qed
  qed
qed

theorem init_mode_exclusive_witness:
  "init E0 world0 ''/p'' True True False ''BallisticaKit''
     = ([], Inl (RuntimeError ''fix and check cannot both be enabled''))
   \<and> fst (init E0 world0 ''/p'' True False False ''BallisticaKit'')
       = [ReadProjectConfig ''/p'', ReadLocalConfig ''/p'']
   \<and> map_sum id check (snd (init E0 world0 ''/p'' True False False ''BallisticaKit'')) = Inr True
   \<and> map_sum id fix_mode (snd (init E0 world0 ''/p'' True False False ''BallisticaKit''))
       = Inr False"
proof -
  let ?r = "init E0 world0 ''/p'' True False False ''BallisticaKit''"
  have a: "init E0 world0 ''/p'' True True False ''BallisticaKit''
     = ([], Inl (RuntimeError ''fix and check cannot both be enabled''))"
    using init_mode_exclusive [where ck = True and fx = True] by simp
  have b: "\<forall>s. snd ?r = Inr s \<longrightarrow> check s = True \<and> fix_mode s = False"
    using init_mode_exclusive [where ck = True and fx = False and E = E0 and w = world0
        and root = "''/p''" and emp = False and pname = "''BallisticaKit''"]
    by simp
  have c: "fst ?r = [ReadProjectConfig ''/p'', ReadLocalConfig ''/p'']"
    by code_simp
  have "case snd ?r of Inl e \<Rightarrow> False | Inr s \<Rightarrow> True"
    by code_simp
  then obtain s where s: "snd ?r = Inr s"
    by (cases "snd ?r") simp_all
  with b have "check s = True" "fix_mode s = False"
    by simp_all
  with s have "map_sum id check (snd ?r) = Inr True" "map_sum id fix_mode (snd ?r) = Inr False"
    by simp_all
  with a c show ?thesis by blast
qed

subsection \<open>The source scan\<close>

lemma walked_set:
  "(root, f) \<in> set (walked wk) \<longleftrightarrow> (\<exists>dirs fnames. (root, dirs, fnames) \<in> set wk \<and> f \<in> set fnames)"
  by (force simp add: walked_def)

lemma found_with_set:
  "found_with es scan_dir wk =
     {p. \<exists>root dirs fnames f. (root, dirs, fnames) \<in> set wk \<and> f \<in> set fnames
           \<and> p = drop (length scan_dir) (os_path_join root f)
           \<and> (\<exists>ext \<in> set es. suffix ext f)}"
proof -
  have "found_with es scan_dir wk =
          {p. \<exists>root f. (root, f) \<in> set (walked wk)
                \<and> p = drop (length scan_dir) (os_path_join root f)
                \<and> (\<exists>ext \<in> set es. suffix ext f)}"
    unfolding found_with_def by (force simp add: list_ex_iff)
  also have "\<dots> = {p. \<exists>root dirs fnames f. (root, dirs, fnames) \<in> set wk \<and> f \<in> set fnames
           \<and> p = drop (length scan_dir) (os_path_join root f)
           \<and> (\<exists>ext \<in> set es. suffix ext f)}"
    unfolding walked_set by blast
  finally show ?thesis .
qed

lemma finite_found_with [simp]: "finite (found_with es scan_dir wk)"
  by (simp add: found_with_def)

lemma found_with_walked:
  "set (walked wk2) = set (walked wk) \<Longrightarrow> found_with es d wk2 = found_with es d wk"
  by (simp add: found_with_def)

lemma leading_separator:
  assumes "scan_dir \<noteq> []" and "\<not> suffix ''/'' scan_dir"
    and "root = scan_dir \<or> prefix (scan_dir @ ''/'') root" and "\<not> prefix ''/'' f"
  shows "prefix ''/'' (drop (length scan_dir) (os_path_join root f))"
proof -
  from assms(3) show ?thesis
  proof
    assume "root = scan_dir"
    with assms(1,2,4) show ?thesis by (simp add: os_path_join_def)
  next
    assume "prefix (scan_dir @ ''/'') root"
    then obtain r where r: "root = scan_dir @ ''/'' @ r" by (auto simp add: prefix_def)
    with assms(4) show ?thesis by (simp add: os_path_join_def)
  qed
qed

text \<open>
  C9.  The scan reads what \<^verbatim>\<open>os.walk\<close> yields for the scan root, once, and sets the two
  lists of the updater.  A path is in the list of sources exactly when it is the stored
  path of a walked file whose name ends with one of the source extensions and it does not
  contain \<^verbatim>\<open>/mgen/\<close>; it is in the list of headers exactly when it is the stored path of
  a walked file whose name ends with \<^verbatim>\<open>.h\<close> and it does not contain \<^verbatim>\<open>/mgen/\<close>.  The
  stored path of a file is the join of its directory and its name without the first
  characters, as many as the scan root has.  Both lists are sorted and without
  duplicates.  When the scan root is not empty and does not end with a slash, as the one
  that \<^verbatim>\<open>prepare_to_generate\<close> passes, and the walk gives directories at or below the scan
  root, every stored path starts with a slash.  The result depends only on the set of
  walked files, not on the order in which the walk yields them.
\<close>

theorem find_sources_and_headers_scan:
  "\<exists>srcs hdrs.
     find_sources_and_headers scan_dir w s = s\<lparr>source_files := Some srcs, header_files := Some hdrs\<rparr>
     \<and> set srcs = {p. \<exists>root dirs fnames f. (root, dirs, fnames) \<in> set (walk w scan_dir)
           \<and> f \<in> set fnames \<and> p = drop (length scan_dir) (os_path_join root f)
           \<and> (\<exists>ext \<in> set [''.c'', ''.cc'', ''.cpp'', ''.cxx'', ''.m'', ''.mm'', ''.swift''].
                 suffix ext f)
           \<and> \<not> sublist ''/mgen/'' p}
     \<and> set hdrs = {p. \<exists>root dirs fnames f. (root, dirs, fnames) \<in> set (walk w scan_dir)
           \<and> f \<in> set fnames \<and> p = drop (length scan_dir) (os_path_join root f)
           \<and> suffix ''.h'' f \<and> \<not> sublist ''/mgen/'' p}
     \<and> sorted srcs \<and> distinct srcs \<and> sorted hdrs \<and> distinct hdrs
     \<and> (scan_dir \<noteq> [] \<and> \<not> suffix ''/'' scan_dir
         \<and> (\<forall>(root, dirs, fnames) \<in> set (walk w scan_dir).
               (root = scan_dir \<or> prefix (scan_dir @ ''/'') root)
               \<and> (\<forall>f \<in> set fnames. \<not> prefix ''/'' f))
         \<longrightarrow> (\<forall>p \<in> set srcs \<union> set hdrs. prefix ''/'' p))
     \<and> (\<forall>w2. set (walked (walk w2 scan_dir)) = set (walked (walk w scan_dir))
           \<longrightarrow> find_sources_and_headers scan_dir w2 s = find_sources_and_headers scan_dir w s)"
proof -
  let ?S = "{x \<in> found_with exts scan_dir (walk w scan_dir). \<not> sublist ''/mgen/'' x}"
  let ?H = "{h \<in> found_with header_exts scan_dir (walk w scan_dir). \<not> sublist ''/mgen/'' h}"
  let ?srcs = "sorted_list_of_set ?S" and ?hdrs = "sorted_list_of_set ?H"
  have fin: "finite ?S" "finite ?H" by simp_all
  have r: "find_sources_and_headers scan_dir w s
             = s\<lparr>source_files := Some ?srcs, header_files := Some ?hdrs\<rparr>"
    by (simp add: find_sources_and_headers_def Let_def)
  have ss: "set ?srcs = ?S" and sh: "set ?hdrs = ?H" using fin by simp_all
  have S: "?S = {p. \<exists>root dirs fnames f. (root, dirs, fnames) \<in> set (walk w scan_dir)
           \<and> f \<in> set fnames \<and> p = drop (length scan_dir) (os_path_join root f)
           \<and> (\<exists>ext \<in> set [''.c'', ''.cc'', ''.cpp'', ''.cxx'', ''.m'', ''.mm'', ''.swift''].
                 suffix ext f)
           \<and> \<not> sublist ''/mgen/'' p}"
    unfolding found_with_set exts_def by blast
  have H: "?H = {p. \<exists>root dirs fnames f. (root, dirs, fnames) \<in> set (walk w scan_dir)
           \<and> f \<in> set fnames \<and> p = drop (length scan_dir) (os_path_join root f)
           \<and> suffix ''.h'' f \<and> \<not> sublist ''/mgen/'' p}"
    unfolding found_with_set header_exts_def by auto
  have so: "sorted ?srcs" "distinct ?srcs" "sorted ?hdrs" "distinct ?hdrs"
    by simp_all
  have lead: "\<forall>p \<in> set ?srcs \<union> set ?hdrs. prefix ''/'' p"
    if wf: "scan_dir \<noteq> [] \<and> \<not> suffix ''/'' scan_dir
         \<and> (\<forall>(root, dirs, fnames) \<in> set (walk w scan_dir).
               (root = scan_dir \<or> prefix (scan_dir @ ''/'') root)
               \<and> (\<forall>f \<in> set fnames. \<not> prefix ''/'' f))"
  proof
    fix p assume "p \<in> set ?srcs \<union> set ?hdrs"
    with ss sh have "p \<in> ?S \<union> ?H" by simp
    then obtain root dirs fnames f where
      m: "(root, dirs, fnames) \<in> set (walk w scan_dir)" "f \<in> set fnames"
      and p: "p = drop (length scan_dir) (os_path_join root f)"
      unfolding found_with_set by blast
    from wf m have "root = scan_dir \<or> prefix (scan_dir @ ''/'') root" "\<not> prefix ''/'' f"
      by auto
    with wf show "prefix ''/'' p"
      unfolding p by (intro leading_separator) simp_all
  qed
  have det: "find_sources_and_headers scan_dir w2 s = find_sources_and_headers scan_dir w s"
    if "set (walked (walk w2 scan_dir)) = set (walked (walk w scan_dir))" for w2
    using found_with_walked [OF that]
    by (simp add: find_sources_and_headers_def Let_def)
  show ?thesis
    apply (rule exI [of _ ?srcs], rule exI [of _ ?hdrs])
    using r ss sh so lead det unfolding S H
    apply (intro conjI)
    apply (assumption | blast)+
    done
qed

theorem find_sources_and_headers_scan_witness:
  "source_files (find_sources_and_headers ''/p/src/ballistica'' world0 updater0)
     = Some [''/a.cc'', ''/base/b.mm'']
   \<and> header_files (find_sources_and_headers ''/p/src/ballistica'' world0 updater0)
       = Some [''/a.h'', ''/base/b.h'']
   \<and> find_sources_and_headers ''/p/src/ballistica'' world0 updater0
       = updater0\<lparr>source_files := Some [''/a.cc'', ''/base/b.mm''],
                  header_files := Some [''/a.h'', ''/base/b.h'']\<rparr>
   \<and> prefix ''/'' ''/a.cc'' \<and> prefix ''/'' ''/base/b.mm''
   \<and> prefix ''/'' ''/a.h'' \<and> prefix ''/'' ''/base/b.h''"
proof -
  let ?d = "''/p/src/ballistica''"
  have wf: "?d \<noteq> [] \<and> \<not> suffix ''/'' ?d
         \<and> (\<forall>(root, dirs, fnames) \<in> set (walk world0 ?d).
               (root = ?d \<or> prefix (?d @ ''/'') root)
               \<and> (\<forall>f \<in> set fnames. \<not> prefix ''/'' f))"
    by code_simp
  have v: "source_files (find_sources_and_headers ?d world0 updater0)
             = Some [''/a.cc'', ''/base/b.mm'']"
    "header_files (find_sources_and_headers ?d world0 updater0) = Some [''/a.h'', ''/base/b.h'']"
    by code_simp+
  from find_sources_and_headers_scan [of ?d world0 updater0]
  obtain srcs hdrs where
    r: "find_sources_and_headers ?d world0 updater0
          = updater0\<lparr>source_files := Some srcs, header_files := Some hdrs\<rparr>"
    and i: "?d \<noteq> [] \<and> \<not> suffix ''/'' ?d
         \<and> (\<forall>(root, dirs, fnames) \<in> set (walk world0 ?d).
               (root = ?d \<or> prefix (?d @ ''/'') root)
               \<and> (\<forall>f \<in> set fnames. \<not> prefix ''/'' f))
         \<longrightarrow> (\<forall>p \<in> set srcs \<union> set hdrs. prefix ''/'' p)"
    by (elim exE conjE) (rule that, assumption+)
  from i wf have l: "\<forall>p \<in> set srcs \<union> set hdrs. prefix ''/'' p"
    by (rule mp)
  from v(1) have e1: "srcs = [''/a.cc'', ''/base/b.mm'']"
    unfolding r by simp
  from v(2) have e2: "hdrs = [''/a.h'', ''/base/b.h'']"
    unfolding r by simp
  from r have r': "find_sources_and_headers ?d world0 updater0
       = updater0\<lparr>source_files := Some [''/a.cc'', ''/base/b.mm''],
                  header_files := Some [''/a.h'', ''/base/b.h'']\<rparr>"
    unfolding e1 e2 .
  from l have "prefix ''/'' ''/a.cc'' \<and> prefix ''/'' ''/base/b.mm''
      \<and> prefix ''/'' ''/a.h'' \<and> prefix ''/'' ''/base/b.h''"
    unfolding e1 e2 by (simp del: prefix_code)
  with v r' show ?thesis by blast
qed

end
